theory Spec2Isabelle
  imports Main
begin

section \<open>Ingestion jobs: data model of processing.service.ts\<close>

text \<open>
  The ingestion service keeps a table of jobs keyed by ingestion id, adds one queue
  entry per trigger and posts a webhook to the main API on every change.  The model is
  a state record passed through every operation.  An awaited call that may reject is a
  value of type \<open>string + 'a\<close>: \<open>Inl msg\<close> is a thrown \<open>Error\<close> with that message.
  Every operation runs from its first to its last statement without another operation
  interleaved at its awaits; the local variable \<open>job\<close> is the record value that the
  source mutates and writes back with \<open>this.jobs.set\<close>.  The notification that
  triggerIngestion starts without awaiting it is made at that point.
  Strings are lists of code units below 256.  Dates are milliseconds on the clock of the
  state; a \<open>setTimeout\<close> of \<open>d\<close> milliseconds advances the clock by \<open>d\<close>.  A log
  line keeps the text of its message; the objects and queue ids printed after it are
  left out.
\<close>

type_synonym 'a outcome = "string + 'a"

datatype ProcessingType = TEXT_EXTRACTION | OCR | ANALYSIS | FULL_PROCESSING

datatype Accuracy = Fast | Balanced | Accurate

record OcrSettings =
  ocr_language :: "string option"
  accuracy :: "Accuracy option"

record AnalysisSettings =
  extractEntities :: "bool option"
  extractTopics :: "bool option"
  sentimentAnalysis :: "bool option"

record IngestionConfigDto =
  processingType :: "ProcessingType option"
  ocrSettings :: "OcrSettings option"
  analysisSettings :: "AnalysisSettings option"
  priority :: "int option"
  metadata :: "(string \<times> string) list option"

text \<open>The four literals of \<open>IngestionJob.status\<close>; the type has no fifth value.\<close>

datatype JobStatus = Queued | Processing | Completed | Failed

fun status_name :: "JobStatus \<Rightarrow> string" where
  "status_name Queued = ''queued''"
| "status_name Processing = ''processing''"
| "status_name Completed = ''completed''"
| "status_name Failed = ''failed''"

record ResultMetadata =
  pageCount :: nat
  wordCount :: nat
  res_language :: string

record ResultAnalysis =
  sentiment :: string
  topics :: "string list"
  entities :: "string list"

record IngestionResult =
  res_extractedText :: string
  res_metadata :: ResultMetadata
  analysis :: ResultAnalysis

record IngestionJob =
  job_id :: string
  documentId :: string
  ingestionId :: string
  config :: "IngestionConfigDto option"
  status :: JobStatus
  progress :: int
  startedAt :: "nat option"
  completedAt :: "nat option"
  error :: "string option"
  result :: "IngestionResult option"

text \<open>The payload of a queue entry, and the entry the queue keeps for it.\<close>

record QueueJobData =
  q_ingestionId :: string
  q_documentId :: string
  q_config :: "IngestionConfigDto option"

record AddOptions =
  ao_priority :: "int option"
  ao_delay :: "int option"

record BullJob =
  bj_id :: nat
  bj_name :: string
  bj_data :: QueueJobData
  bj_priority :: int
  bj_delay :: int
  bj_progress :: int

record WebhookPayload =
  p_ingestionId :: string
  p_status :: string
  p_progress :: int
  p_timestamp :: nat
  p_result :: "IngestionResult option"
  p_error :: "string option"

datatype LogLevel = LOG | ERROR | WARN

text \<open>
  \<open>outbox\<close> lists every webhook post attempted with whether it was delivered;
  \<open>history\<close> lists every \<open>this.jobs.set(key, job)\<close> in the order of execution.
\<close>

record ServiceState =
  jobs :: "string \<rightharpoonup> IngestionJob"
  queue :: "BullJob list"
  outbox :: "(WebhookPayload \<times> bool) list"
  history :: "(string \<times> IngestionJob) list"
  logs :: "(LogLevel \<times> string) list"
  clock :: nat

text \<open>
  The HTTP client is the environment: given the number of posts made so far and the
  payload, it delivers (\<open>None\<close>) or throws (\<open>Some msg\<close>: a timeout or a transport error).
\<close>

type_synonym Http = "nat \<Rightarrow> WebhookPayload \<Rightarrow> string option"

definition add_log :: "LogLevel \<Rightarrow> string \<Rightarrow> ServiceState \<Rightarrow> ServiceState" where
  "add_log lvl msg s = s\<lparr>logs := logs s @ [(lvl, msg)]\<rparr>"

definition jobs_set :: "string \<Rightarrow> IngestionJob \<Rightarrow> ServiceState \<Rightarrow> ServiceState" where
  "jobs_set k job s = s\<lparr>jobs := (jobs s)(k \<mapsto> job), history := history s @ [(k, job)]\<rparr>"

definition andThen ::
  "'a outcome \<times> 's \<Rightarrow> ('a \<Rightarrow> 's \<Rightarrow> 'b outcome \<times> 's) \<Rightarrow> 'b outcome \<times> 's" where
  "andThen m f = (case m of (Inl e, s) \<Rightarrow> (Inl e, s) | (Inr a, s) \<Rightarrow> f a s)"

subsection \<open>notifyMainAPI\<close>

definition axios_post :: "Http \<Rightarrow> WebhookPayload \<Rightarrow> ServiceState \<Rightarrow> unit outcome \<times> ServiceState" where
  "axios_post http payload s =
     (case http (length (outbox s)) payload of
        None \<Rightarrow> (Inr (), s\<lparr>outbox := outbox s @ [(payload, True)]\<rparr>)
      | Some msg \<Rightarrow> (Inl msg, s\<lparr>outbox := outbox s @ [(payload, False)]\<rparr>))"

definition notifyMainAPI ::
  "Http \<Rightarrow> string \<Rightarrow> string \<Rightarrow> int \<Rightarrow> IngestionResult option \<Rightarrow> string option
     \<Rightarrow> ServiceState \<Rightarrow> unit outcome \<times> ServiceState" where
  "notifyMainAPI http ingId st prog res err s =
     (let payload = \<lparr>p_ingestionId = ingId, p_status = st, p_progress = prog,
                      p_timestamp = clock s, p_result = res,
                      p_error = (case err of None \<Rightarrow> None
                                 | Some e \<Rightarrow> if e = [] then None else Some e)\<rparr>
      in case axios_post http payload s of
           (Inr u, s1) \<Rightarrow> (Inr (), add_log LOG (''Notified main API: '' @ ingId @ '' -> '' @ st) s1)
         | (Inl msg, s1) \<Rightarrow>
             (Inr (), add_log ERROR (''Failed to notify main API for '' @ ingId @ '': '' @ msg) s1))"

subsection \<open>QueueService.addJob\<close>

text \<open>
  The queue is the list of the entries added so far, each with the options that
  \<open>documentQueue.add\<close> receives and the progress that \<open>job.progress\<close> sets;
  \<open>documentQueue.add\<close> accepts every entry.
\<close>

definition addJob ::
  "string \<Rightarrow> QueueJobData \<Rightarrow> AddOptions option \<Rightarrow> ServiceState \<Rightarrow> BullJob outcome \<times> ServiceState" where
  "addJob queueName data options s =
     (let s1 = add_log LOG (''Adding job to '' @ queueName @ '' queue:'') s;
          base_priority = (case q_config data of None \<Rightarrow> 5
                           | Some c \<Rightarrow> (case priority c of None \<Rightarrow> 5
                                        | Some p \<Rightarrow> if p = 0 then 5 else p));
          base_delay = (case options of None \<Rightarrow> 0
                        | Some opt \<Rightarrow> (case ao_delay opt of None \<Rightarrow> 0 | Some d \<Rightarrow> d));
          job = \<lparr>bj_id = Suc (length (queue s1)), bj_name = ''process-document'', bj_data = data,
                 bj_priority = (case options of None \<Rightarrow> base_priority
                                | Some opt \<Rightarrow> (case ao_priority opt of None \<Rightarrow> base_priority
                                               | Some p \<Rightarrow> p)),
                 bj_delay = base_delay, bj_progress = 0\<rparr>;
          s2 = s1\<lparr>queue := queue s1 @ [job]\<rparr>
      in (Inr job, add_log LOG ''Job added'' s2))"

subsection \<open>triggerIngestion\<close>

record TriggerReply =
  jobId :: string
  reply_status :: string

definition triggerIngestion ::
  "Http \<Rightarrow> string \<Rightarrow> string \<Rightarrow> IngestionConfigDto option \<Rightarrow> ServiceState
     \<Rightarrow> TriggerReply outcome \<times> ServiceState" where
  "triggerIngestion http docId ingId cfg s =
     (let s1 = add_log LOG (''Triggering ingestion for document: '' @ docId) s;
          job = \<lparr>job_id = ingId, documentId = docId, ingestionId = ingId, config = cfg,
                 status = Queued, progress = 0, startedAt = None, completedAt = None,
                 error = None, result = None\<rparr>;
          s2 = jobs_set ingId job s1
      in andThen (addJob ''document-processing''
                    \<lparr>q_ingestionId = ingId, q_documentId = docId, q_config = cfg\<rparr> None s2)
           (\<lambda>added s3.
              let s4 = snd (notifyMainAPI http ingId ''queued'' 0 None None s3)
              in (Inr \<lparr>jobId = ingId, reply_status = ''queued''\<rparr>, s4)))"

subsection \<open>processDocument and simulateProcessingPhases\<close>

definition phases :: "(string \<times> int \<times> nat) list" where
  "phases = [(''Document Download'', 20, 1000), (''Text Extraction'', 40, 2000),
             (''Content Analysis'', 60, 3000), (''Metadata Extraction'', 80, 1500),
             (''Indexing'', 95, 1000)]"

fun run_phases ::
  "Http \<Rightarrow> (string \<times> int \<times> nat) list \<Rightarrow> IngestionJob \<Rightarrow> ServiceState
     \<Rightarrow> unit outcome \<times> IngestionJob \<times> ServiceState" where
  "run_phases http [] job s = (Inr (), job, s)"
| "run_phases http ((name, prog, duration) # rest) job s =
     (let s1 = add_log LOG (''Processing phase: '' @ name @ '' for '' @ ingestionId job) s;
          s2 = s1\<lparr>clock := clock s1 + duration\<rparr>;
          job1 = job\<lparr>progress := prog\<rparr>;
          s3 = jobs_set (ingestionId job1) job1 s2
      in case notifyMainAPI http (ingestionId job1) ''processing'' prog None None s3 of
           (Inl e, s4) \<Rightarrow> (Inl e, job1, s4)
         | (Inr u, s4) \<Rightarrow> run_phases http rest job1 s4)"

definition simulateProcessingPhases ::
  "Http \<Rightarrow> IngestionJob \<Rightarrow> ServiceState \<Rightarrow> unit outcome \<times> IngestionJob \<times> ServiceState" where
  "simulateProcessingPhases http job s = run_phases http phases job s"

definition sample_result :: IngestionResult where
  "sample_result =
     \<lparr>res_extractedText = ''Sample extracted text content...'',
      res_metadata = \<lparr>pageCount = 5, wordCount = 1250, res_language = ''en''\<rparr>,
      analysis = \<lparr>sentiment = ''neutral'', topics = [''business'', ''technology''],
                  entities = [''Company A'', ''Product B'']\<rparr>\<rparr>"

text \<open>The body of the \<open>try\<close> block; on a throw it hands the job as mutated so far to the handler.\<close>

definition processDocument_try ::
  "Http \<Rightarrow> string \<Rightarrow> IngestionJob \<Rightarrow> ServiceState \<Rightarrow> unit outcome \<times> IngestionJob \<times> ServiceState" where
  "processDocument_try http ingId job s =
     (let s1 = add_log LOG (''Starting processing for ingestion: '' @ ingId) s;
          job1 = job\<lparr>status := Processing, startedAt := Some (clock s1), progress := 10\<rparr>;
          s2 = jobs_set ingId job1 s1
      in case notifyMainAPI http ingId ''processing'' 10 None None s2 of
           (Inl e, s3) \<Rightarrow> (Inl e, job1, s3)
         | (Inr u, s3) \<Rightarrow>
            (case simulateProcessingPhases http job1 s3 of
               (Inl e, job2, s4) \<Rightarrow> (Inl e, job2, s4)
             | (Inr u, job2, s4) \<Rightarrow>
                (let job3 = job2\<lparr>status := Completed, completedAt := Some (clock s4),
                                 progress := 100, result := Some sample_result\<rparr>;
                     s5 = jobs_set ingId job3 s4
                 in case notifyMainAPI http ingId ''completed'' 100 (result job3) None s5 of
                      (Inl e, s6) \<Rightarrow> (Inl e, job3, s6)
                    | (Inr u, s6) \<Rightarrow>
                        (Inr (), job3,
                         add_log LOG (''Processing completed for ingestion: '' @ ingId) s6))))"

text \<open>The \<open>catch\<close> block of processDocument.\<close>

definition processDocument_catch ::
  "Http \<Rightarrow> string \<Rightarrow> string \<Rightarrow> IngestionJob \<Rightarrow> ServiceState \<Rightarrow> unit outcome \<times> ServiceState" where
  "processDocument_catch http ingId msg job s =
     (let s1 = add_log ERROR (''Processing failed for ingestion: '' @ ingId) s;
          job1 = job\<lparr>status := Failed, completedAt := Some (clock s1), error := Some msg\<rparr>;
          s2 = jobs_set ingId job1 s1
      in notifyMainAPI http ingId ''failed'' (progress job1) None (Some msg) s2)"

definition processDocument ::
  "Http \<Rightarrow> QueueJobData \<Rightarrow> ServiceState \<Rightarrow> unit outcome \<times> ServiceState" where
  "processDocument http jobData s =
     (let ingId = q_ingestionId jobData
      in case jobs s ingId of
           None \<Rightarrow> (Inr (), add_log ERROR (''Job not found: '' @ ingId) s)
         | Some job \<Rightarrow>
            (case processDocument_try http ingId job s of
               (Inr u, job1, s1) \<Rightarrow> (Inr (), s1)
             | (Inl msg, job1, s1) \<Rightarrow> processDocument_catch http ingId msg job1 s1))"

subsection \<open>getIngestionStatus and cancelIngestion\<close>

definition getIngestionStatus :: "string \<Rightarrow> ServiceState \<Rightarrow> IngestionJob option" where
  "getIngestionStatus ingId s = jobs s ingId"

record CancelReply =
  cancelled :: bool

definition cancelIngestion ::
  "Http \<Rightarrow> string \<Rightarrow> ServiceState \<Rightarrow> CancelReply outcome \<times> ServiceState" where
  "cancelIngestion http ingId s =
     (case jobs s ingId of
        None \<Rightarrow> (Inr \<lparr>cancelled = False\<rparr>, s)
      | Some job \<Rightarrow>
         if status job = Completed \<or> status job = Failed then (Inr \<lparr>cancelled = False\<rparr>, s)
         else
           (let job1 = job\<lparr>status := Failed, error := Some ''Cancelled by user'',
                            completedAt := Some (clock s)\<rparr>;
                s1 = jobs_set ingId job1 s
            in andThen (notifyMainAPI http ingId ''failed'' (progress job1) None
                          (Some ''Cancelled by user'') s1)
                 (\<lambda>u s2. (Inr \<lparr>cancelled = True\<rparr>, s2))))"

subsection \<open>The queue worker of document.processor.ts\<close>

record HandlerReply =
  h_success :: bool
  h_message :: string

text \<open>
  \<open>job.progress(p)\<close> is a call to the queue engine, which is the environment: given the
  time of the call, the id of the queue job and the value, it stores the value
  (\<open>None\<close>) or rejects (\<open>Some msg\<close>), and then the awaited call throws.
\<close>

type_synonym Engine = "nat \<Rightarrow> nat \<Rightarrow> int \<Rightarrow> string option"

definition job_progress ::
  "Engine \<Rightarrow> nat \<Rightarrow> int \<Rightarrow> ServiceState \<Rightarrow> unit outcome \<times> ServiceState" where
  "job_progress eng qid p s =
     (case eng (clock s) qid p of
        None \<Rightarrow>
          (Inr (), s\<lparr>queue := map (\<lambda>j. if bj_id j = qid then j\<lparr>bj_progress := p\<rparr> else j)
                                (queue s)\<rparr>)
      | Some msg \<Rightarrow> (Inl msg, s))"

text \<open>
  The handler: both calls of \<open>job.progress\<close> and the call of processDocument are inside
  the \<open>try\<close> block, and the \<open>catch\<close> block logs the error and throws it again.
\<close>

definition handleDocumentProcessing ::
  "Engine \<Rightarrow> Http \<Rightarrow> BullJob \<Rightarrow> ServiceState \<Rightarrow> HandlerReply outcome \<times> ServiceState" where
  "handleDocumentProcessing eng http qjob s =
     (let s0 = add_log LOG ''Processing job'' s;
          body = andThen (job_progress eng (bj_id qjob) 0 s0)
                   (\<lambda>u s1. andThen (processDocument http (bj_data qjob) s1)
                      (\<lambda>u s2. andThen (job_progress eng (bj_id qjob) 100 s2)
                         (\<lambda>u s3. (Inr \<lparr>h_success = True,
                                        h_message = ''Document processed successfully''\<rparr>,
                                   add_log LOG ''Job completed successfully'' s3))))
      in case body of
           (Inr r, s') \<Rightarrow> (Inr r, s')
         | (Inl e, s') \<Rightarrow> (Inl e, add_log ERROR ''Job failed'' s'))"

text \<open>The value that the handler returns.\<close>

definition processed_reply :: HandlerReply where
  "processed_reply = \<lparr>h_success = True, h_message = ''Document processed successfully''\<rparr>"

subsection \<open>Terminal statuses, and the states used as concrete inputs\<close>

text \<open>The guard of cancelIngestion: \<open>completed\<close> and \<open>failed\<close> are the terminal statuses.\<close>

definition is_terminal :: "JobStatus \<Rightarrow> bool" where
  "is_terminal st = (st = Completed \<or> st = Failed)"

definition cancel_all :: "Http \<Rightarrow> string list \<Rightarrow> ServiceState \<Rightarrow> ServiceState" where
  "cancel_all http ids s = fold (\<lambda>i st. snd (cancelIngestion http i st)) ids s"

definition init_state :: ServiceState where
  "init_state = \<lparr>jobs = Map.empty, queue = [], outbox = [], history = [], logs = [], clock = 0\<rparr>"

definition http_ok :: Http where
  "http_ok n p = None"

definition http_down :: Http where
  "http_down n p = Some ''timeout of 5000ms exceeded''"

definition jd1 :: QueueJobData where
  "jd1 = \<lparr>q_ingestionId = ''ing-1'', q_documentId = ''doc-1'', q_config = None\<rparr>"

definition ex_queued :: ServiceState where
  "ex_queued = snd (triggerIngestion http_ok ''doc-1'' ''ing-1'' None init_state)"

definition ex_cancelled :: ServiceState where
  "ex_cancelled = snd (cancelIngestion http_ok ''ing-1'' ex_queued)"

definition ex_done :: ServiceState where
  "ex_done = snd (processDocument http_ok jd1 ex_queued)"

text \<open>The id \<open>ing-1\<close> triggered twice, and both queue items processed.\<close>

definition ex_twice :: ServiceState where
  "ex_twice =
     snd (processDocument http_ok jd1
       (snd (processDocument http_ok jd1
         (snd (triggerIngestion http_ok ''doc-1'' ''ing-1'' None
           (snd (triggerIngestion http_ok ''doc-1'' ''ing-1'' None init_state)))))))"

section \<open>Document processor: data model of document-processor.service.ts\<close>

text \<open>
  The document processor runs up to six stages in a fixed order, each behind a flag of
  the job's configuration, reports a progress value before each stage, and sends one
  callback with the result.  The stage methods of the repository are simulations that
  always resolve; the pipeline is modelled over any implementation of the six methods,
  so that an awaited stage may reject, and \<open>simulated\<close> below is the repository's own.
\<close>

datatype Priority = Low | Normal | High

record ProcessingConfig =
  c_extractText :: bool
  c_performOCR :: bool
  c_extractKeywords :: bool
  c_generateSummary :: bool
  c_detectLanguage :: bool
  c_enableSearch :: bool
  c_priority :: Priority

record DocumentMetadata =
  title :: "string option"
  description :: "string option"
  category :: "string option"
  tags :: "string list option"
  uploadedAt :: nat

record DocumentProcessingJob =
  dp_documentId :: string
  userId :: string
  fileName :: string
  fileType :: string
  fileSize :: int
  storagePath :: string
  dp_config :: ProcessingConfig
  dp_metadata :: DocumentMetadata

record ProcessingResult =
  r_documentId :: string
  success :: bool
  extractedText :: "string option"
  ocrText :: "string option"
  r_keywords :: "string list option"
  summary :: "string option"
  language :: "string option"
  r_metadata :: "(string \<times> string) list option"
  processingTime :: int
  errors :: "string list option"

text \<open>
  A progress value is written either by \<open>updateProgress(documentId, progress, step)\<close>
  or by \<open>job.progress(n)\<close> of the queue consumer.
\<close>

datatype ProgressWrite = UpdateProgress string int string | JobProgress int

fun written_value :: "ProgressWrite \<Rightarrow> int" where
  "written_value (UpdateProgress d p step) = p"
| "written_value (JobProgress p) = p"

record ProcState =
  progress_log :: "ProgressWrite list"
  callbacks :: "((string \<times> ProcessingResult) \<times> bool) list"
  plogs :: "(LogLevel \<times> string) list"
  now :: nat

type_synonym CallbackHttp = "nat \<Rightarrow> string \<times> ProcessingResult \<Rightarrow> string option"

datatype Stage = ExtractText | PerformOCR | ExtractKeywords | GenerateSummary
  | DetectLanguage | IndexForSearch

record StageImpl =
  impl_extractText :: "DocumentProcessingJob \<Rightarrow> string outcome"
  impl_performOCR :: "DocumentProcessingJob \<Rightarrow> string outcome"
  impl_extractKeywords :: "DocumentProcessingJob \<Rightarrow> string option \<Rightarrow> string list outcome"
  impl_generateSummary :: "DocumentProcessingJob \<Rightarrow> string option \<Rightarrow> string outcome"
  impl_detectLanguage :: "string option \<Rightarrow> string outcome"
  impl_indexForSearch :: "DocumentProcessingJob \<Rightarrow> ProcessingResult \<Rightarrow> unit outcome"
  impl_delay :: "Stage \<Rightarrow> nat"

subsection \<open>String helpers of the stage methods\<close>

text \<open>\<open>String.prototype.toLowerCase\<close> on code units below 256.\<close>

definition lower_char :: "char \<Rightarrow> char" where
  "lower_char c =
     (let n = (of_char c :: nat)
      in if (65 \<le> n \<and> n \<le> 90) \<or> (192 \<le> n \<and> n \<le> 222 \<and> n \<noteq> 215)
         then (case c of Char b0 b1 b2 b3 b4 b5 b6 b7 \<Rightarrow> Char b0 b1 b2 b3 b4 True b6 b7)
         else c)"

definition toLowerCase :: "string \<Rightarrow> string" where
  "toLowerCase s = map lower_char s"

text \<open>The class \<open>\s\<close> of a regular expression, on code units below 256.\<close>

definition is_space :: "char \<Rightarrow> bool" where
  "is_space c = ((of_char c :: nat) \<in> {9, 10, 11, 12, 13, 32, 160})"

text \<open>
  \<open>s.split(/\s+/)\<close>: the pieces between maximal runs of white space; a run at either
  end leaves an empty piece there.
\<close>

fun split_aux :: "bool \<Rightarrow> string \<Rightarrow> string \<Rightarrow> string list" where
  "split_aux in_run cur [] = [cur]"
| "split_aux in_run cur (c # cs) =
     (if is_space c
      then (if in_run then split_aux True [] cs else cur # split_aux True [] cs)
      else split_aux False (cur @ [c]) cs)"

definition split_ws :: "string \<Rightarrow> string list" where
  "split_ws s = split_aux False [] s"

text \<open>\<open>[...new Set(words)]\<close>: every value once, at the place of its first occurrence.\<close>

fun set_order :: "'a list \<Rightarrow> 'a list \<Rightarrow> 'a list" where
  "set_order seen [] = []"
| "set_order seen (w # ws) =
     (if w \<in> set seen then set_order seen ws else w # set_order (w # seen) ws)"

text \<open>\<open>s.includes(w)\<close>.\<close>

fun str_includes :: "string \<Rightarrow> string \<Rightarrow> bool" where
  "str_includes [] w = (w = [])"
| "str_includes (c # cs) w = (take (length w) (c # cs) = w \<or> str_includes cs w)"

fun decimal :: "nat \<Rightarrow> string" where
  "decimal n =
     (if n < 10 then [''0123456789'' ! n]
      else decimal (n div 10) @ [''0123456789'' ! (n mod 10)])"

subsection \<open>The simulated stage methods\<close>

definition extractText :: "DocumentProcessingJob \<Rightarrow> string" where
  "extractText job =
     (let ft = toLowerCase (fileType job)
      in if ft = ''pdf''
         then ''Extracted text from PDF: '' @ fileName job @ ''. This is sample extracted text content.''
         else if ft = ''docx'' \<or> ft = ''doc''
         then ''Extracted text from Word document: '' @ fileName job
                @ ''. This is sample extracted text content.''
         else if ft = ''txt''
         then ''Text file content: '' @ fileName job @ ''. This is sample text file content.''
         else ''Generic text extraction from '' @ fileName job
                @ ''. This is sample extracted content.'')"

definition performOCR :: "DocumentProcessingJob \<Rightarrow> string" where
  "performOCR job =
     (if toLowerCase (fileType job) \<in> set [''jpg'', ''jpeg'', ''png'', ''tiff'', ''bmp'']
      then ''OCR text from image '' @ fileName job
             @ '': This is sample OCR extracted text from the image.''
      else ''OCR processing not applicable for file type: '' @ fileType job)"

text \<open>\<open>!text\<close> holds for \<open>undefined\<close> and for the empty string.\<close>

definition extractKeywords :: "DocumentProcessingJob \<Rightarrow> string option \<Rightarrow> string list" where
  "extractKeywords job text =
     (case text of
        None \<Rightarrow> [''document'', ''file'', fileType job]
      | Some t \<Rightarrow>
          if t = [] then [''document'', ''file'', fileType job]
          else (let words = split_ws (toLowerCase t);
                    kws = take 10 (filter (\<lambda>word. length word > 3) (set_order [] words))
                in if length kws > 0 then kws else [''document'', ''content'', ''text'']))"

definition generateSummary :: "DocumentProcessingJob \<Rightarrow> string option \<Rightarrow> string" where
  "generateSummary job text =
     (case text of
        None \<Rightarrow> ''Summary for '' @ fileName job
          @ '': This document contains content that could not be processed for summary generation.''
      | Some t \<Rightarrow>
          if t = []
          then ''Summary for '' @ fileName job
            @ '': This document contains content that could not be processed for summary generation.''
          else ''Summary for '' @ fileName job @ '': This document contains '' @ decimal (length t)
            @ '' characters of content. The main topics appear to be related to the document's primary subject matter.'')"

definition englishWords :: "string list" where
  "englishWords = [''the'', ''and'', ''is'', ''in'', ''to'', ''of'', ''a'', ''that'']"

definition detectLanguage :: "string option \<Rightarrow> string" where
  "detectLanguage text =
     (case text of
        None \<Rightarrow> ''unknown''
      | Some t \<Rightarrow>
          if t = [] then ''unknown''
          else (let textLower = toLowerCase t;
                    englishCount = length (filter (\<lambda>word. str_includes textLower word) englishWords)
                in if englishCount > 3 then ''en'' else ''unknown''))"

fun simulated_delay :: "Stage \<Rightarrow> nat" where
  "simulated_delay ExtractText = 1000"
| "simulated_delay PerformOCR = 2000"
| "simulated_delay ExtractKeywords = 500"
| "simulated_delay GenerateSummary = 1500"
| "simulated_delay DetectLanguage = 300"
| "simulated_delay IndexForSearch = 800"

definition simulated :: StageImpl where
  "simulated =
     \<lparr>impl_extractText = (\<lambda>job. Inr (extractText job)),
      impl_performOCR = (\<lambda>job. Inr (performOCR job)),
      impl_extractKeywords = (\<lambda>job text. Inr (extractKeywords job text)),
      impl_generateSummary = (\<lambda>job text. Inr (generateSummary job text)),
      impl_detectLanguage = (\<lambda>text. Inr (detectLanguage text)),
      impl_indexForSearch = (\<lambda>job res. Inr ()),
      impl_delay = simulated_delay\<rparr>"

subsection \<open>The pipeline of processDocument\<close>

definition stage_order :: "Stage list" where
  "stage_order = [ExtractText, PerformOCR, ExtractKeywords, GenerateSummary, DetectLanguage,
                  IndexForSearch]"

fun enabled :: "ProcessingConfig \<Rightarrow> Stage \<Rightarrow> bool" where
  "enabled cfg ExtractText = c_extractText cfg"
| "enabled cfg PerformOCR = c_performOCR cfg"
| "enabled cfg ExtractKeywords = c_extractKeywords cfg"
| "enabled cfg GenerateSummary = c_generateSummary cfg"
| "enabled cfg DetectLanguage = c_detectLanguage cfg"
| "enabled cfg IndexForSearch = c_enableSearch cfg"

fun checkpoint :: "Stage \<Rightarrow> int" where
  "checkpoint ExtractText = 10"
| "checkpoint PerformOCR = 30"
| "checkpoint ExtractKeywords = 50"
| "checkpoint GenerateSummary = 70"
| "checkpoint DetectLanguage = 85"
| "checkpoint IndexForSearch = 95"

fun step_text :: "Stage \<Rightarrow> string" where
  "step_text ExtractText = ''Extracting text...''"
| "step_text PerformOCR = ''Performing OCR...''"
| "step_text ExtractKeywords = ''Extracting keywords...''"
| "step_text GenerateSummary = ''Generating summary...''"
| "step_text DetectLanguage = ''Detecting language...''"
| "step_text IndexForSearch = ''Indexing for search...''"

text \<open>The awaited call of one stage and the assignment of its value to the result.\<close>

fun run_stage ::
  "StageImpl \<Rightarrow> DocumentProcessingJob \<Rightarrow> Stage \<Rightarrow> ProcessingResult \<Rightarrow> ProcessingResult outcome" where
  "run_stage impl job ExtractText r =
     (case impl_extractText impl job of Inl e \<Rightarrow> Inl e
      | Inr v \<Rightarrow> Inr (r\<lparr>extractedText := Some v\<rparr>))"
| "run_stage impl job PerformOCR r =
     (case impl_performOCR impl job of Inl e \<Rightarrow> Inl e
      | Inr v \<Rightarrow> Inr (r\<lparr>ocrText := Some v\<rparr>))"
| "run_stage impl job ExtractKeywords r =
     (case impl_extractKeywords impl job (extractedText r) of Inl e \<Rightarrow> Inl e
      | Inr v \<Rightarrow> Inr (r\<lparr>r_keywords := Some v\<rparr>))"
| "run_stage impl job GenerateSummary r =
     (case impl_generateSummary impl job (extractedText r) of Inl e \<Rightarrow> Inl e
      | Inr v \<Rightarrow> Inr (r\<lparr>summary := Some v\<rparr>))"
| "run_stage impl job DetectLanguage r =
     (case impl_detectLanguage impl (extractedText r) of Inl e \<Rightarrow> Inl e
      | Inr v \<Rightarrow> Inr (r\<lparr>language := Some v\<rparr>))"
| "run_stage impl job IndexForSearch r =
     (case impl_indexForSearch impl job r of Inl e \<Rightarrow> Inl e
      | Inr v \<Rightarrow> Inr r)"

definition updateProgress :: "string \<Rightarrow> int \<Rightarrow> string \<Rightarrow> ProcState \<Rightarrow> ProcState" where
  "updateProgress docId p step s = s\<lparr>progress_log := progress_log s @ [UpdateProgress docId p step]\<rparr>"

definition plog :: "LogLevel \<Rightarrow> string \<Rightarrow> ProcState \<Rightarrow> ProcState" where
  "plog lvl msg s = s\<lparr>plogs := plogs s @ [(lvl, msg)]\<rparr>"

text \<open>
  The stages in order: a disabled stage is skipped; an enabled one reports its progress
  value and runs; the first stage that rejects ends the run, with the result as
  assigned so far.
\<close>

fun run_stages ::
  "StageImpl \<Rightarrow> DocumentProcessingJob \<Rightarrow> Stage list \<Rightarrow> ProcessingResult \<Rightarrow> ProcState
     \<Rightarrow> unit outcome \<times> ProcessingResult \<times> ProcState" where
  "run_stages impl job [] r s = (Inr (), r, s)"
| "run_stages impl job (st # rest) r s =
     (if enabled (dp_config job) st
      then (let s1 = updateProgress (dp_documentId job) (checkpoint st) (step_text st) s;
                s2 = s1\<lparr>now := now s1 + impl_delay impl st\<rparr>
            in case run_stage impl job st r of
                 Inl e \<Rightarrow> (Inl e, r, s2)
               | Inr r1 \<Rightarrow> run_stages impl job rest r1 s2)
      else run_stages impl job rest r s)"

subsection \<open>sendProcessingCallback and processDocument\<close>

definition http_post ::
  "CallbackHttp \<Rightarrow> string \<times> ProcessingResult \<Rightarrow> ProcState \<Rightarrow> unit outcome \<times> ProcState" where
  "http_post http body s =
     (case http (length (callbacks s)) body of
        None \<Rightarrow> (Inr (), s\<lparr>callbacks := callbacks s @ [(body, True)]\<rparr>)
      | Some msg \<Rightarrow> (Inl msg, s\<lparr>callbacks := callbacks s @ [(body, False)]\<rparr>))"

definition sendProcessingCallback ::
  "CallbackHttp \<Rightarrow> string \<Rightarrow> ProcessingResult \<Rightarrow> ProcState \<Rightarrow> unit outcome \<times> ProcState" where
  "sendProcessingCallback http docId res s =
     (case http_post http (docId, res) s of
        (Inr u, s1) \<Rightarrow> (Inr (), plog LOG (''Callback sent for document '' @ docId) s1)
      | (Inl msg, s1) \<Rightarrow>
          (Inr (), plog ERROR (''Failed to send callback for document '' @ docId @ '': '' @ msg) s1))"

text \<open>The \<open>catch\<close> block of processDocument: it returns the result and throws nothing.\<close>

definition dp_catch ::
  "CallbackHttp \<Rightarrow> DocumentProcessingJob \<Rightarrow> nat \<Rightarrow> string \<Rightarrow> ProcessingResult \<Rightarrow> ProcState
     \<Rightarrow> ProcessingResult outcome \<times> ProcState" where
  "dp_catch http job startTime msg r s =
     (let r1 = r\<lparr>success := False, errors := Some [msg],
                 processingTime := int (now s) - int startTime\<rparr>;
          s1 = plog ERROR (''Processing failed for document '' @ dp_documentId job @ '':'') s
      in andThen (sendProcessingCallback http (dp_documentId job) r1 s1)
           (\<lambda>u s2. (Inr r1, s2)))"

definition initial_result :: "DocumentProcessingJob \<Rightarrow> ProcessingResult" where
  "initial_result job =
     \<lparr>r_documentId = dp_documentId job, success = False, extractedText = None,
      ocrText = None, r_keywords = None, summary = None, language = None,
      r_metadata = None, processingTime = 0, errors = Some []\<rparr>"

definition dp_processDocument ::
  "StageImpl \<Rightarrow> CallbackHttp \<Rightarrow> DocumentProcessingJob \<Rightarrow> ProcState
     \<Rightarrow> ProcessingResult outcome \<times> ProcState" where
  "dp_processDocument impl http job s =
     (let startTime = now s;
          r0 = initial_result job;
          s0 = plog LOG (''Starting processing for document '' @ dp_documentId job) s
      in case run_stages impl job stage_order r0 s0 of
           (Inl msg, r1, s1) \<Rightarrow> dp_catch http job startTime msg r1 s1
         | (Inr u, r1, s1) \<Rightarrow>
            (let s2 = updateProgress (dp_documentId job) 100 ''Processing completed'' s1;
                 r2 = r1\<lparr>success := True, processingTime := int (now s2) - int startTime\<rparr>;
                 s3 = plog LOG (''Processing completed for document '' @ dp_documentId job) s2
             in case sendProcessingCallback http (dp_documentId job) r2 s3 of
                  (Inl msg, s4) \<Rightarrow> dp_catch http job startTime msg r2 s4
                | (Inr u, s4) \<Rightarrow> (Inr r2, s4)))"

subsection \<open>The queue consumer of queue-consumer.service.ts\<close>

definition consumer_progress :: "int \<Rightarrow> ProcState \<Rightarrow> unit outcome \<times> ProcState" where
  "consumer_progress p s = (Inr (), s\<lparr>progress_log := progress_log s @ [JobProgress p]\<rparr>)"

definition consumer_processDocument ::
  "StageImpl \<Rightarrow> CallbackHttp \<Rightarrow> DocumentProcessingJob \<Rightarrow> ProcState
     \<Rightarrow> ProcessingResult outcome \<times> ProcState" where
  "consumer_processDocument impl http job s =
     (let s0 = plog LOG (''Processing job for document '' @ dp_documentId job) s;
          body = andThen (consumer_progress 0 s0)
                   (\<lambda>u s1. andThen (dp_processDocument impl http job s1)
                      (\<lambda>res s2. andThen (consumer_progress 100 s2)
                         (\<lambda>u s3. (Inr res, plog LOG ''Job completed successfully'' s3))))
      in case body of
           (Inr r, s') \<Rightarrow> (Inr r, s')
         | (Inl e, s') \<Rightarrow> (Inl e, plog ERROR ''Job failed'' s'))"

subsection \<open>The retry policy of the queue\<close>

text \<open>
  The queue engine is the library Bull, which is not part of the repository;
  queue.module.ts configures it with \<open>attempts: 3\<close> and an exponential back-off with a
  delay of 2000 ms.  What the engine does with these options is taken from the
  specification of the Admission Queue.
\<close>

text \<open>
  Modelled from the spec: \<open>maxAttempts\<close>, the fixed policy of section 3 with its default
  of 3, which is also the value of \<open>attempts\<close> in queue.module.ts.
\<close>

definition maxAttempts :: nat where
  "maxAttempts = 3"

text \<open>
  Modelled from the spec: the back-off of section 4.1, exponential with a base delay of
  2 s that doubles per attempt.
\<close>

definition backoff :: "nat \<Rightarrow> nat" where
  "backoff attempt = 2000 * 2 ^ (attempt - 1)"

datatype Disposition = Ack | DeadLetter

text \<open>
  Modelled from the spec: the retry policy of section 4.1 and the loop of section 5,
  \<open>claimNext\<close>, run, then \<open>ack\<close>, \<open>retry\<close> or \<open>deadLetter\<close>.  An entry whose handler
  returns is acknowledged; one whose handler throws is run again as \<open>attempt + 1\<close> after
  \<open>backoff attempt\<close> while \<open>attempt < maxAttempts\<close>, and is dead-lettered when
  \<open>attempt = maxAttempts\<close>.  \<open>run_entry attempt handler s\<close> returns the number of the
  last attempt made, the back-off delays waited, and how the entry ended.
\<close>

function run_entry ::
  "nat \<Rightarrow> ('s \<Rightarrow> 'a outcome \<times> 's) \<Rightarrow> 's \<Rightarrow> nat \<times> nat list \<times> Disposition \<times> 's" where
  "run_entry attempt handler s =
     (case handler s of
        (Inr r, s1) \<Rightarrow> (attempt, [], Ack, s1)
      | (Inl e, s1) \<Rightarrow>
          if attempt < maxAttempts
          then (case run_entry (attempt + 1) handler s1 of
                  (n, delays, d, s2) \<Rightarrow> (n, backoff attempt # delays, d, s2))
          else (attempt, [], DeadLetter, s1))"
  by pat_completeness auto
termination
  by (relation "measure (\<lambda>(attempt, handler, s). maxAttempts - attempt)") auto

subsection \<open>Concrete queue items and engines\<close>

definition engine_ok :: Engine where
  "engine_ok t qid p = None"

text \<open>An engine that has lost its connection: every call of \<open>job.progress\<close> rejects.\<close>

definition engine_down :: Engine where
  "engine_down t qid p = Some ''Connection is closed.''"

definition ghost_item :: BullJob where
  "ghost_item = \<lparr>bj_id = 1, bj_name = ''process-document'',
     bj_data = \<lparr>q_ingestionId = ''ghost'', q_documentId = ''doc-7'', q_config = None\<rparr>,
     bj_priority = 5, bj_delay = 0, bj_progress = 0\<rparr>"

subsection \<open>The progress values written by a run\<close>

text \<open>The writes to the job store made between two states.\<close>

definition writes_since :: "ServiceState \<Rightarrow> ServiceState \<Rightarrow> (string \<times> IngestionJob) list" where
  "writes_since s s' = drop (length (history s)) (history s')"

text \<open>The progress values written under a key while the status written with them is not terminal.\<close>

definition open_progress :: "string \<Rightarrow> (string \<times> IngestionJob) list \<Rightarrow> int list" where
  "open_progress k ws =
     map (\<lambda>(key, job). progress job)
       (filter (\<lambda>(key, job). key = k \<and> \<not> is_terminal (status job)) ws)"

subsection \<open>Concrete inputs of the document processor\<close>

definition proc_init :: ProcState where
  "proc_init = \<lparr>progress_log = [], callbacks = [], plogs = [], now = 0\<rparr>"

definition callback_ok_http :: CallbackHttp where
  "callback_ok_http n body = None"

definition callback_down_http :: CallbackHttp where
  "callback_down_http n body = Some ''timeout of 10000ms exceeded''"

definition all_stages :: ProcessingConfig where
  "all_stages = \<lparr>c_extractText = True, c_performOCR = True, c_extractKeywords = True,
                 c_generateSummary = True, c_detectLanguage = True, c_enableSearch = True,
                 c_priority = Normal\<rparr>"

definition job0 :: DocumentProcessingJob where
  "job0 = \<lparr>dp_documentId = ''doc-1'', userId = ''user-1'', fileName = ''a.pdf'',
           fileType = ''pdf'', fileSize = 2048, storagePath = ''/tmp/a.pdf'',
           dp_config = all_stages,
           dp_metadata = \<lparr>title = None, description = None, category = None, tags = None,
                          uploadedAt = 0\<rparr>\<rparr>"

text \<open>The simulated stages, except that the OCR stage rejects.\<close>

definition ocr_fails :: StageImpl where
  "ocr_fails = simulated\<lparr>impl_performOCR := (\<lambda>job. Inl ''OCR engine unavailable'')\<rparr>"

definition payload0 :: WebhookPayload where
  "payload0 = \<lparr>p_ingestionId = ''ing-1'', p_status = ''processing'', p_progress = 10,
                p_timestamp = 0, p_result = None, p_error = None\<rparr>"


section \<open>Properties of the ingestion service\<close>

subsection \<open>Frame lemmas\<close>

lemma add_log_frame [simp]:
  "jobs (add_log l m s) = jobs s" "queue (add_log l m s) = queue s"
  "history (add_log l m s) = history s" "clock (add_log l m s) = clock s"
  "outbox (add_log l m s) = outbox s"
  by (simp_all add: add_log_def)

lemma jobs_set_frame [simp]:
  "jobs (jobs_set k j s) = (jobs s)(k \<mapsto> j)" "queue (jobs_set k j s) = queue s"
  "history (jobs_set k j s) = history s @ [(k, j)]" "clock (jobs_set k j s) = clock s"
  "outbox (jobs_set k j s) = outbox s"
  by (simp_all add: jobs_set_def)

lemma notify_ok [simp]: "fst (notifyMainAPI http i st p r e s) = Inr ()"
  by (simp add: notifyMainAPI_def axios_post_def Let_def split: option.splits)

lemma notify_frame [simp]:
  "jobs (snd (notifyMainAPI http i st p r e s)) = jobs s"
  "queue (snd (notifyMainAPI http i st p r e s)) = queue s"
  "history (snd (notifyMainAPI http i st p r e s)) = history s"
  "clock (snd (notifyMainAPI http i st p r e s)) = clock s"
  by (simp_all add: notifyMainAPI_def axios_post_def add_log_def Let_def split: option.splits)

lemma notify_case [simp]:
  "(case notifyMainAPI http i st p r e s of (Inl m, s') \<Rightarrow> f m s' | (Inr u, s') \<Rightarrow> g u s')
     = g () (snd (notifyMainAPI http i st p r e s))"
proof -
  have "notifyMainAPI http i st p r e s = (Inr (), snd (notifyMainAPI http i st p r e s))"
    by (metis notify_ok prod.collapse)
  then show ?thesis
    by (metis (mono_tags, lifting) old.prod.case old.sum.simps(6))
qed

lemma andThen_ok: "fst m = Inr a \<Longrightarrow> andThen m f = f a (snd m)"
  by (cases m) (simp add: andThen_def)

lemma notify_andThen [simp]:
  "andThen (notifyMainAPI http i st p r e s) k = k () (snd (notifyMainAPI http i st p r e s))"
  by (simp add: andThen_ok)

lemma addJob_frame [simp]:
  "jobs (snd (addJob qn d opt s)) = jobs s"
  "history (snd (addJob qn d opt s)) = history s"
  "clock (snd (addJob qn d opt s)) = clock s"
  "outbox (snd (addJob qn d opt s)) = outbox s"
  by (simp_all add: addJob_def Let_def)

subsection \<open>The phases of one run\<close>

lemma run_phases_ok: "fst (run_phases http ps job s) = Inr ()"
  by (induction ps arbitrary: job s) (auto simp: Let_def)

lemma sim_phases_eq:
  "simulateProcessingPhases http job s =
     (Inr (), fst (snd (simulateProcessingPhases http job s)),
      snd (snd (simulateProcessingPhases http job s)))"
  by (metis run_phases_ok simulateProcessingPhases_def prod.collapse)

lemma sim_phases_case [simp]:
  "(case simulateProcessingPhases http job s of
      (Inl m, j, s') \<Rightarrow> f m j s' | (Inr u, j, s') \<Rightarrow> g u j s')
     = g () (fst (snd (simulateProcessingPhases http job s)))
            (snd (snd (simulateProcessingPhases http job s)))"
  by (subst sim_phases_eq) (simp add: case_prod_beta)

lemma sim_phases_job [simp]:
  "fst (snd (simulateProcessingPhases http job s)) = job\<lparr>progress := 95\<rparr>"
  by (simp add: simulateProcessingPhases_def phases_def Let_def)

lemma sim_phases_frame [simp]:
  "clock (snd (snd (simulateProcessingPhases http job s))) = clock s + 8500"
  "queue (snd (snd (simulateProcessingPhases http job s))) = queue s"
  "history (snd (snd (simulateProcessingPhases http job s))) =
     history s @ map (\<lambda>p. (ingestionId job, job\<lparr>progress := p\<rparr>)) [20, 40, 60, 80, 95]"
  "jobs (snd (snd (simulateProcessingPhases http job s))) =
     (jobs s)(ingestionId job \<mapsto> job\<lparr>progress := 95\<rparr>)"
  by (simp_all add: simulateProcessingPhases_def phases_def Let_def)

lemma processDocument_try_ok: "fst (processDocument_try http i job s) = Inr ()"
  by (simp add: processDocument_try_def Let_def)

lemma processDocument_stored:
  "jobs s (q_ingestionId jd) = Some job \<Longrightarrow>
   jobs (snd (processDocument http jd s)) (q_ingestionId jd) =
     Some (job\<lparr>status := Completed, startedAt := Some (clock s),
               completedAt := Some (clock s + 8500), progress := 100,
               result := Some sample_result\<rparr>)"
  by (simp add: processDocument_def processDocument_try_def Let_def)

subsection \<open>Trigger and cancel\<close>

lemma trigger_jobs:
  "jobs (snd (triggerIngestion http d i c s)) =
     (jobs s)(i \<mapsto> \<lparr>job_id = i, documentId = d, ingestionId = i, config = c,
                 status = Queued, progress = 0, startedAt = None, completedAt = None,
                 error = None, result = None\<rparr>)"
  by (simp add: triggerIngestion_def addJob_def andThen_def Let_def)

lemma trigger_clock: "clock (snd (triggerIngestion http d i c s)) = clock s"
  by (simp add: triggerIngestion_def addJob_def andThen_def Let_def)

lemma cancel_live:
  "jobs s i = Some job \<Longrightarrow> \<not> is_terminal (status job) \<Longrightarrow>
   fst (cancelIngestion http i s) = Inr \<lparr>cancelled = True\<rparr> \<and>
   jobs (snd (cancelIngestion http i s)) =
     (jobs s)(i \<mapsto> job\<lparr>status := Failed, error := Some ''Cancelled by user'',
                     completedAt := Some (clock s)\<rparr>)"
  by (simp add: cancelIngestion_def is_terminal_def Let_def)

lemma cancel_dead:
  "jobs s i = None \<or> (\<exists>job. jobs s i = Some job \<and> is_terminal (status job)) \<Longrightarrow>
   cancelIngestion http i s = (Inr \<lparr>cancelled = False\<rparr>, s)"
  by (auto simp: cancelIngestion_def is_terminal_def)

lemma cancel_other: "k \<noteq> i \<Longrightarrow> jobs (snd (cancelIngestion http i s)) k = jobs s k"
  by (simp add: cancelIngestion_def Let_def split: option.splits)

lemma ex_queued_job:
  "jobs ex_queued ''ing-1'' =
     Some \<lparr>job_id = ''ing-1'', documentId = ''doc-1'', ingestionId = ''ing-1'', config = None,
           status = Queued, progress = 0, startedAt = None, completedAt = None,
           error = None, result = None\<rparr>"
  by (simp add: ex_queued_def trigger_jobs)

lemma ex_queued_clock: "clock ex_queued = 0"
  by (simp add: ex_queued_def trigger_clock init_state_def)

lemma ex_done_job:
  "jobs ex_done ''ing-1'' =
     Some \<lparr>job_id = ''ing-1'', documentId = ''doc-1'', ingestionId = ''ing-1'', config = None,
           status = Completed, progress = 100, startedAt = Some 0, completedAt = Some 8500,
           error = None, result = Some sample_result\<rparr>"
  unfolding ex_done_def
  using processDocument_stored [of ex_queued jd1] ex_queued_job ex_queued_clock
  by (simp add: jd1_def)

subsection \<open>Cancellation\<close>

text \<open>
  C1 (as amended).  The job type has no status \<open>cancelled\<close>.  For every job stored with
  status \<open>queued\<close> or \<open>processing\<close>, cancelIngestion answers \<open>cancelled: true\<close> and
  the stored record becomes \<open>failed\<close> with the error \<open>Cancelled by user\<close> and
  \<open>completedAt\<close> set to the time of the call; every other field keeps its value.
\<close>

theorem cancel_marks_failed:
  "jobs s ingId = Some job \<Longrightarrow> status job = Queued \<or> status job = Processing \<Longrightarrow>
   fst (cancelIngestion http ingId s) = Inr \<lparr>cancelled = True\<rparr> \<and>
   jobs (snd (cancelIngestion http ingId s)) ingId =
     Some (job\<lparr>status := Failed, error := Some ''Cancelled by user'',
               completedAt := Some (clock s)\<rparr>)"
  using cancel_live [of s ingId job http] by (auto simp: is_terminal_def)

theorem cancel_marks_failed_witness:
  "status (the (jobs ex_queued ''ing-1'')) = Queued \<and>
   fst (cancelIngestion http_down ''ing-1'' ex_queued) = Inr \<lparr>cancelled = True\<rparr> \<and>
   map_option status (jobs (snd (cancelIngestion http_down ''ing-1'' ex_queued)) ''ing-1'')
     = Some Failed \<and>
   map_option error (jobs (snd (cancelIngestion http_down ''ing-1'' ex_queued)) ''ing-1'')
     = Some (Some ''Cancelled by user'')"
  using cancel_marks_failed [OF ex_queued_job, of http_down] by (simp add: ex_queued_job)

text \<open>
  The claim as stated fails: cancelling the queued job \<open>ing-1\<close> stores the status
  \<open>failed\<close>, not \<open>cancelled\<close>.
\<close>

theorem cancel_not_cancelled_counterexample:
  "map_option status (jobs ex_queued ''ing-1'') = Some Queued \<and>
   map_option (status_name \<circ> status)
       (jobs (snd (cancelIngestion http_ok ''ing-1'' ex_queued)) ''ing-1'') = Some ''failed'' \<and>
   map_option (status_name \<circ> status)
       (jobs (snd (cancelIngestion http_ok ''ing-1'' ex_queued)) ''ing-1'') \<noteq> Some ''cancelled''"
  using cancel_live [OF ex_queued_job, of http_ok] by (simp add: ex_queued_job is_terminal_def)

text \<open>
  C6.  cancelIngestion answers \<open>cancelled: false\<close> exactly when the job is unknown to
  the store or already terminal, and then the whole state of the service, the stored
  record included, is left as it was; otherwise it answers \<open>cancelled: true\<close>.
\<close>

theorem cancel_false_iff:
  "(\<exists>r. fst (cancelIngestion http ingId s) = Inr r \<and>
      (cancelled r = False) =
        (jobs s ingId = None \<or> (\<exists>job. jobs s ingId = Some job \<and> is_terminal (status job))))
   \<and> ((jobs s ingId = None \<or> (\<exists>job. jobs s ingId = Some job \<and> is_terminal (status job)))
        \<longrightarrow> snd (cancelIngestion http ingId s) = s)"
  by (cases "jobs s ingId") (simp_all add: cancelIngestion_def is_terminal_def Let_def)

theorem cancel_false_iff_witness:
  "(\<exists>job. jobs ex_done ''ing-1'' = Some job \<and> is_terminal (status job)) \<and>
   snd (cancelIngestion http_ok ''ing-1'' ex_done) = ex_done \<and>
   (\<exists>r. fst (cancelIngestion http_ok ''ing-1'' ex_done) = Inr r \<and> cancelled r = False)"
  using cancel_false_iff [of http_ok "''ing-1''" ex_done]
  by (simp add: ex_done_job is_terminal_def)

lemma cancel_all_keeps:
  "jobs s i = Some job \<Longrightarrow> is_terminal (status job) \<Longrightarrow>
   jobs (cancel_all http ids s) i = Some job"
proof (induction ids arbitrary: s)
  case Nil
  then show ?case by (simp add: cancel_all_def)
next
  case (Cons k ids)
  have "jobs (snd (cancelIngestion http k s)) i = Some job"
  proof (cases "k = i")
    case True
    with Cons.prems show ?thesis by (simp add: cancel_dead)
  next
    case False
    with Cons.prems show ?thesis by (simp add: cancel_other)
  qed
  from Cons.IH [OF this Cons.prems(2)] show ?case by (simp add: cancel_all_def)
qed

text \<open>
  C2 (as amended).  For every job stored as \<open>completed\<close> or \<open>failed\<close>, cancelIngestion
  answers \<open>cancelled: false\<close> and returns the state as it was, and the stored record is
  the same after any list of cancellation requests.
\<close>

theorem terminal_sticky_under_cancel:
  "jobs s i = Some job \<Longrightarrow> status job = Completed \<or> status job = Failed \<Longrightarrow>
   cancelIngestion http i s = (Inr \<lparr>cancelled = False\<rparr>, s) \<and>
   jobs (cancel_all http ids s) i = Some job"
  using cancel_all_keeps [of s i job http ids] cancel_dead [of s i http]
  by (auto simp: is_terminal_def)

theorem terminal_sticky_under_cancel_witness:
  "map_option status (jobs ex_done ''ing-1'') = Some Completed \<and>
   cancelIngestion http_down ''ing-1'' ex_done = (Inr \<lparr>cancelled = False\<rparr>, ex_done) \<and>
   jobs (cancel_all http_down [''ing-1'', ''ing-2'', ''ing-1''] ex_done) ''ing-1''
     = jobs ex_done ''ing-1''"
  using terminal_sticky_under_cancel
          [OF ex_done_job, of http_down "[''ing-1'', ''ing-2'', ''ing-1'']"]
  by (simp add: ex_done_job)

lemma ex_cancelled_job:
  "jobs ex_cancelled ''ing-1'' =
     Some \<lparr>job_id = ''ing-1'', documentId = ''doc-1'', ingestionId = ''ing-1'', config = None,
           status = Failed, progress = 0, startedAt = None, completedAt = Some 0,
           error = Some ''Cancelled by user'', result = None\<rparr>"
  unfolding ex_cancelled_def
  using cancel_live [OF ex_queued_job, of http_ok] by (simp add: is_terminal_def ex_queued_clock)

text \<open>
  The claim as stated fails for processDocument, which does not look at the stored
  status: the job \<open>ing-1\<close>, cancelled while queued and so stored as \<open>failed\<close> with
  progress 0 and no result, is \<open>completed\<close> with progress 100 and a result after the
  worker has processed its queue item.
\<close>

theorem terminal_overwritten_counterexample:
  "map_option status (jobs ex_cancelled ''ing-1'') = Some Failed \<and>
   map_option progress (jobs ex_cancelled ''ing-1'') = Some 0 \<and>
   map_option result (jobs ex_cancelled ''ing-1'') = Some None \<and>
   map_option status (jobs (snd (processDocument http_ok jd1 ex_cancelled)) ''ing-1'')
     = Some Completed \<and>
   map_option progress (jobs (snd (processDocument http_ok jd1 ex_cancelled)) ''ing-1'')
     = Some 100 \<and>
   map_option result (jobs (snd (processDocument http_ok jd1 ex_cancelled)) ''ing-1'')
     = Some (Some sample_result)"
  using processDocument_stored [of ex_cancelled jd1 _ http_ok]
  by (simp add: ex_cancelled_job jd1_def)

subsection \<open>Triggering\<close>

text \<open>
  C9.  triggerIngestion never rejects: whatever the store holds under the ingestion id,
  a completed or failed job included, the call stores a fresh record under it (status
  \<open>queued\<close>, progress 0, no dates, error or result), appends one new entry with the
  job's data to the queue, and answers with the id and the status \<open>queued\<close>.
\<close>

theorem trigger_replaces:
  "fst (triggerIngestion http docId ingId cfg s)
     = Inr \<lparr>jobId = ingId, reply_status = ''queued''\<rparr> \<and>
   jobs (snd (triggerIngestion http docId ingId cfg s)) =
     (jobs s)(ingId \<mapsto> \<lparr>job_id = ingId, documentId = docId, ingestionId = ingId, config = cfg,
                      status = Queued, progress = 0, startedAt = None, completedAt = None,
                      error = None, result = None\<rparr>) \<and>
   (\<exists>entry. queue (snd (triggerIngestion http docId ingId cfg s)) = queue s @ [entry] \<and>
      bj_name entry = ''process-document'' \<and> bj_progress entry = 0 \<and>
      bj_data entry = \<lparr>q_ingestionId = ingId, q_documentId = docId, q_config = cfg\<rparr>)"
  by (simp add: triggerIngestion_def addJob_def andThen_def Let_def add_log_def)

subsection \<open>What processDocument returns\<close>

lemma processDocument_ok: "fst (processDocument http jd s) = Inr ()"
  by (simp add: processDocument_def processDocument_catch_def Let_def processDocument_try_def
        split: option.splits)

lemma processDocument_unknown:
  "jobs s (q_ingestionId jd) = None \<Longrightarrow>
   processDocument http jd s = (Inr (), add_log ERROR (''Job not found: '' @ q_ingestionId jd) s)"
  by (simp add: processDocument_def)

section \<open>Properties of the document processor\<close>

lemma plog_frame [simp]:
  "progress_log (plog l m s) = progress_log s" "callbacks (plog l m s) = callbacks s"
  "now (plog l m s) = now s"
  by (simp_all add: plog_def)

lemma updateProgress_frame [simp]:
  "progress_log (updateProgress d p t s) = progress_log s @ [UpdateProgress d p t]"
  "callbacks (updateProgress d p t s) = callbacks s" "now (updateProgress d p t s) = now s"
  by (simp_all add: updateProgress_def)

lemma callback_ok [simp]: "fst (sendProcessingCallback http d r s) = Inr ()"
  by (simp add: sendProcessingCallback_def http_post_def split: option.splits)

lemma callback_frame [simp]:
  "progress_log (snd (sendProcessingCallback http d r s)) = progress_log s"
  "now (snd (sendProcessingCallback http d r s)) = now s"
  by (simp_all add: sendProcessingCallback_def http_post_def split: option.splits)


lemma callback_case [simp]:
  "(case sendProcessingCallback http d r s of (Inl m, s') \<Rightarrow> f m s' | (Inr u, s') \<Rightarrow> g u s')
     = g () (snd (sendProcessingCallback http d r s))"
proof -
  have "sendProcessingCallback http d r s = (Inr (), snd (sendProcessingCallback http d r s))"
    by (metis callback_ok prod.collapse)
  then show ?thesis
    by (metis (mono_tags, lifting) old.prod.case old.sum.simps(6))
qed

lemma dp_catch_eq:
  "dp_catch http job t0 msg r s =
     (Inr (r\<lparr>success := False, errors := Some [msg], processingTime := int (now s) - int t0\<rparr>),
      snd (sendProcessingCallback http (dp_documentId job)
             (r\<lparr>success := False, errors := Some [msg], processingTime := int (now s) - int t0\<rparr>)
             (plog ERROR (''Processing failed for document '' @ dp_documentId job @ '':'') s)))"
  by (simp add: dp_catch_def Let_def andThen_ok [OF callback_ok])



lemma run_stages_log:
  "sorted (map checkpoint sts) \<Longrightarrow>
   \<exists>ws. progress_log (snd (snd (run_stages impl job sts r s))) = progress_log s @ ws \<and>
        sorted (map written_value ws) \<and> written_value ` set ws \<subseteq> checkpoint ` set sts"
proof (induction sts arbitrary: r s)
  case Nil
  then show ?case by simp
next
  case (Cons st rest)
  from Cons.prems have srt: "sorted (map checkpoint rest)"
    and le: "\<forall>x\<in>set rest. checkpoint st \<le> checkpoint x" by auto
  show ?case
  proof (cases "enabled (dp_config job) st")
    case False
    with Cons.IH [OF srt, of r s] show ?thesis by auto
  next
    case True
    let ?s2 = "(updateProgress (dp_documentId job) (checkpoint st) (step_text st) s)
                 \<lparr>now := now (updateProgress (dp_documentId job) (checkpoint st) (step_text st) s)
                           + impl_delay impl st\<rparr>"
    have pl: "progress_log ?s2 = progress_log s @ [UpdateProgress (dp_documentId job) (checkpoint st) (step_text st)]"
      by simp
    show ?thesis
    proof (cases "run_stage impl job st r")
      case (Inl e)
      with True pl show ?thesis by (simp add: Let_def)
    next
      case (Inr r1)
      from Cons.IH [OF srt, of r1 ?s2] obtain ws where
        ws: "progress_log (snd (snd (run_stages impl job rest r1 ?s2))) = progress_log ?s2 @ ws"
        "sorted (map written_value ws)" "written_value ` set ws \<subseteq> checkpoint ` set rest"
        by blast
      have "\<forall>w\<in>set ws. checkpoint st \<le> written_value w" using ws(3) le by auto
      with ws True Inr pl show ?thesis
        by (intro exI [of _ "UpdateProgress (dp_documentId job) (checkpoint st) (step_text st) # ws"])
           (auto simp: Let_def)
    qed
  qed
qed

lemma checkpoint_range: "10 \<le> checkpoint st \<and> checkpoint st \<le> 95"
  by (cases st) simp_all

lemma stage_order_sorted: "sorted (map checkpoint stage_order)"
  by (simp add: stage_order_def)

lemma dp_ok: "\<exists>r. fst (dp_processDocument impl http job s) = Inr r"
  by (simp add: dp_processDocument_def Let_def dp_catch_eq split: prod.splits sum.splits)

lemma dp_log:
  "\<exists>ws. progress_log (snd (dp_processDocument impl http job s)) = progress_log s @ ws \<and>
        sorted (map written_value ws) \<and> (\<forall>w\<in>set ws. 10 \<le> written_value w \<and> written_value w \<le> 100)"
proof -
  let ?s0 = "plog LOG (''Starting processing for document '' @ dp_documentId job) s"
  let ?r0 = "initial_result job"
  obtain out r1 s1 where run: "run_stages impl job stage_order ?r0 ?s0 = (out, r1, s1)"
    by (metis prod_cases3)
  from run_stages_log [OF stage_order_sorted, of impl job ?r0 ?s0] run obtain ws where
    ws: "progress_log s1 = progress_log s @ ws" "sorted (map written_value ws)"
        "written_value ` set ws \<subseteq> checkpoint ` set stage_order"
    by auto
  have rng: "\<forall>w\<in>set ws. 10 \<le> written_value w \<and> written_value w \<le> 95"
    using ws(3) checkpoint_range by fastforce
  show ?thesis
  proof (cases out)
    case (Inl e)
    with run ws rng show ?thesis
      by (intro exI [of _ ws]) (auto simp: dp_processDocument_def Let_def dp_catch_eq)
  next
    case (Inr u)
    with run ws rng show ?thesis
      by (intro exI [of _ "ws @ [UpdateProgress (dp_documentId job) 100 ''Processing completed'']"])
         (auto simp: dp_processDocument_def Let_def sorted_append)
  qed
qed

subsection \<open>The queue consumer\<close>

lemma consumer_progress_ok: "fst (consumer_progress p s) = Inr ()"
  by (simp add: consumer_progress_def)

lemma consumer_eq:
  "consumer_processDocument impl http job s =
     (fst (dp_processDocument impl http job
             (snd (consumer_progress 0
                (plog LOG (''Processing job for document '' @ dp_documentId job) s)))),
      plog LOG ''Job completed successfully''
        (snd (consumer_progress 100
          (snd (dp_processDocument impl http job
             (snd (consumer_progress 0
                (plog LOG (''Processing job for document '' @ dp_documentId job) s))))))))"
proof -
  define s1 where
    "s1 = snd (consumer_progress 0 (plog LOG (''Processing job for document '' @ dp_documentId job) s))"
  obtain r where r: "fst (dp_processDocument impl http job s1) = Inr r"
    using dp_ok by blast
  have "consumer_processDocument impl http job s =
          (Inr r, plog LOG ''Job completed successfully''
             (snd (consumer_progress 100 (snd (dp_processDocument impl http job s1)))))"
    apply (simp only: consumer_processDocument_def Let_def andThen_ok [OF consumer_progress_ok])
    apply (simp only: s1_def [symmetric] andThen_ok [OF r])
    apply simp
    done
  with r show ?thesis by (simp only: s1_def)
qed

lemma consumer_log:
  "\<exists>ws. progress_log (snd (consumer_processDocument impl http job s)) = progress_log s @ ws \<and>
        sorted (map written_value ws) \<and> (\<forall>w\<in>set ws. 0 \<le> written_value w \<and> written_value w \<le> 100)"
proof -
  let ?s1 = "snd (consumer_progress 0 (plog LOG (''Processing job for document '' @ dp_documentId job) s))"
  have l1: "progress_log ?s1 = progress_log s @ [JobProgress 0]"
    by (simp add: consumer_progress_def)
  from dp_log [of impl http job ?s1] obtain ws where
    ws: "progress_log (snd (dp_processDocument impl http job ?s1)) = progress_log ?s1 @ ws"
        "sorted (map written_value ws)"
        "\<forall>w\<in>set ws. 10 \<le> written_value w \<and> written_value w \<le> 100"
    by blast
  show ?thesis
    using ws l1
    by (intro exI [of _ "JobProgress 0 # ws @ [JobProgress 100]"])
       (auto simp: consumer_eq consumer_progress_def sorted_append)
qed

section \<open>Progress and notification\<close>

lemma trigger_history:
  "history (snd (triggerIngestion http d i c s)) =
     history s @ [(i, \<lparr>job_id = i, documentId = d, ingestionId = i, config = c,
                 status = Queued, progress = 0, startedAt = None, completedAt = None,
                 error = None, result = None\<rparr>)]"
  by (simp add: triggerIngestion_def addJob_def andThen_def Let_def)

lemma processDocument_history:
  "jobs s (q_ingestionId jd) = Some job \<Longrightarrow>
   history (snd (processDocument http jd s)) =
     history s @
       (q_ingestionId jd, job\<lparr>status := Processing, startedAt := Some (clock s), progress := 10\<rparr>)
       # map (\<lambda>p. (ingestionId job,
                    job\<lparr>status := Processing, startedAt := Some (clock s), progress := p\<rparr>))
           [20, 40, 60, 80, 95]
       @ [(q_ingestionId jd, job\<lparr>status := Completed, startedAt := Some (clock s),
               completedAt := Some (clock s + 8500), progress := 100,
               result := Some sample_result\<rparr>)]"
  by (simp add: processDocument_def processDocument_try_def Let_def)

lemma run_writes:
  "open_progress (q_ingestionId jd)
     (writes_since s (snd (processDocument http' jd
         (snd (triggerIngestion http d (q_ingestionId jd) c s)))))
   = [0, 10, 20, 40, 60, 80, 95]"
proof -
  let ?s1 = "snd (triggerIngestion http d (q_ingestionId jd) c s)"
  have stored: "jobs ?s1 (q_ingestionId jd) =
     Some \<lparr>job_id = q_ingestionId jd, documentId = d, ingestionId = q_ingestionId jd, config = c,
           status = Queued, progress = 0, startedAt = None, completedAt = None,
           error = None, result = None\<rparr>"
    by (simp add: trigger_jobs)
  show ?thesis
    by (simp add: writes_since_def open_progress_def processDocument_history [OF stored]
          trigger_history is_terminal_def)
qed

text \<open>
  C4 (as amended).  Within one execution, the progress values written while the job is
  not terminal never decrease and lie between 0 and 100, on every path.  In the
  ingestion service, the values written under a job's id from its trigger to the end of
  the worker's run are 0, 10, 20, 40, 60, 80, 95, whatever the webhook does.  In the
  document processor, for every configuration of stages, every behaviour of the stages
  (a failure at any stage included) and every behaviour of the callback, the values
  written during one run of the consumer, by \<open>job.progress\<close> and by
  \<open>updateProgress\<close>, never decrease and lie between 0 and 100.
\<close>

theorem progress_non_decreasing:
  "sorted (open_progress (q_ingestionId jd)
     (writes_since s (snd (processDocument http' jd
         (snd (triggerIngestion http d (q_ingestionId jd) c s)))))) \<and>
   (\<forall>p \<in> set (open_progress (q_ingestionId jd)
     (writes_since s (snd (processDocument http' jd
         (snd (triggerIngestion http d (q_ingestionId jd) c s)))))). 0 \<le> p \<and> p \<le> 100) \<and>
   (\<exists>ws. progress_log (snd (consumer_processDocument impl chttp job ps)) = progress_log ps @ ws \<and>
        sorted (map written_value ws) \<and>
        (\<forall>w\<in>set ws. 0 \<le> written_value w \<and> written_value w \<le> 100))"
  using consumer_log [of impl chttp job ps] by (simp add: run_writes)


lemma ocr_fails_run:
  "map written_value (progress_log (snd (consumer_processDocument ocr_fails callback_down_http job0 proc_init)))
     = [0, 10, 30, 100]"
  by (simp add: consumer_eq consumer_progress_def dp_processDocument_def Let_def dp_catch_eq
        stage_order_def ocr_fails_def simulated_def job0_def all_stages_def proc_init_def
        initial_result_def)

theorem progress_non_decreasing_witness:
  "open_progress ''ing-1''
     (writes_since init_state (snd (processDocument http_down jd1
         (snd (triggerIngestion http_down ''doc-1'' ''ing-1'' None init_state)))))
     = [0, 10, 20, 40, 60, 80, 95] \<and>
   sorted (open_progress ''ing-1''
     (writes_since init_state (snd (processDocument http_down jd1
         (snd (triggerIngestion http_down ''doc-1'' ''ing-1'' None init_state)))))) \<and>
   map written_value
     (progress_log (snd (consumer_processDocument ocr_fails callback_down_http job0 proc_init)))
     = [0, 10, 30, 100]"
  using progress_non_decreasing [of jd1 init_state http_down http_down "''doc-1''" None
          ocr_fails callback_down_http job0 proc_init]
        run_writes [of jd1 init_state http_down http_down "''doc-1''" None]
  by (simp add: jd1_def ocr_fails_run)

text \<open>
  The claim as stated fails over the lifetime of a job: processDocument starts every
  execution at 10 without looking at the stored record.  When the id \<open>ing-1\<close> is
  triggered twice and both queue items are processed, the record is written with
  status \<open>processing\<close> and progress 95 and later with status \<open>processing\<close> and
  progress 10.
\<close>

theorem rerun_restarts_progress_counterexample:
  "open_progress ''ing-1'' (history ex_twice)
     = [0, 0, 10, 20, 40, 60, 80, 95, 10, 20, 40, 60, 80, 95] \<and>
   \<not> sorted (open_progress ''ing-1'' (history ex_twice))"
proof -
  let ?s2 = "snd (triggerIngestion http_ok ''doc-1'' ''ing-1'' None
           (snd (triggerIngestion http_ok ''doc-1'' ''ing-1'' None init_state)))"
  let ?s3 = "snd (processDocument http_ok jd1 ?s2)"
  let ?j = "\<lparr>job_id = ''ing-1'', documentId = ''doc-1'', ingestionId = ''ing-1'', config = None,
           status = Queued, progress = 0, startedAt = None, completedAt = None,
           error = None, result = None\<rparr>"
  have j2: "jobs ?s2 (q_ingestionId jd1) = Some ?j"
    by (simp add: trigger_jobs jd1_def)
  have j3: "jobs ?s3 (q_ingestionId jd1) =
              Some (?j\<lparr>status := Completed, startedAt := Some (clock ?s2),
                      completedAt := Some (clock ?s2 + 8500), progress := 100,
                      result := Some sample_result\<rparr>)"
    by (rule processDocument_stored [OF j2])
  have h3: "history ex_twice = history ?s3 @
       (q_ingestionId jd1, ?j\<lparr>status := Completed, startedAt := Some (clock ?s2),
                      completedAt := Some (clock ?s2 + 8500), progress := 100,
                      result := Some sample_result\<rparr>
                 \<lparr>status := Processing, startedAt := Some (clock ?s3), progress := 10\<rparr>)
       # map (\<lambda>p. (''ing-1'', ?j\<lparr>status := Completed, startedAt := Some (clock ?s2),
                      completedAt := Some (clock ?s2 + 8500), progress := 100,
                      result := Some sample_result\<rparr>
                    \<lparr>status := Processing, startedAt := Some (clock ?s3), progress := p\<rparr>))
           [20, 40, 60, 80, 95]
       @ [(q_ingestionId jd1, ?j\<lparr>status := Completed, startedAt := Some (clock ?s2),
                      completedAt := Some (clock ?s2 + 8500), progress := 100,
                      result := Some sample_result\<rparr>
               \<lparr>status := Completed, startedAt := Some (clock ?s3),
               completedAt := Some (clock ?s3 + 8500), progress := 100,
               result := Some sample_result\<rparr>)]"
    unfolding ex_twice_def using processDocument_history [OF j3, of http_ok] by simp
  have h2: "history ?s3 = history ?s2 @
       (q_ingestionId jd1, ?j\<lparr>status := Processing, startedAt := Some (clock ?s2), progress := 10\<rparr>)
       # map (\<lambda>p. (''ing-1'', ?j\<lparr>status := Processing, startedAt := Some (clock ?s2), progress := p\<rparr>))
           [20, 40, 60, 80, 95]
       @ [(q_ingestionId jd1, ?j\<lparr>status := Completed, startedAt := Some (clock ?s2),
               completedAt := Some (clock ?s2 + 8500), progress := 100,
               result := Some sample_result\<rparr>)]"
    using processDocument_history [OF j2, of http_ok] by simp
  have h1: "history ?s2 = [(''ing-1'', ?j), (''ing-1'', ?j)]"
    by (simp add: trigger_history init_state_def)
  have h: "open_progress ''ing-1'' (history ex_twice)
     = [0, 0, 10, 20, 40, 60, 80, 95, 10, 20, 40, 60, 80, 95]"
    unfolding h3 h2 h1 by (simp add: open_progress_def is_terminal_def jd1_def)
  show ?thesis unfolding h by simp
qed


lemma processDocument_jobs:
  "jobs (snd (processDocument http jd s)) =
     (case jobs s (q_ingestionId jd) of
        None \<Rightarrow> jobs s
      | Some job \<Rightarrow>
          (jobs s)(ingestionId job \<mapsto>
                     job\<lparr>status := Processing, startedAt := Some (clock s), progress := 95\<rparr>,
                   q_ingestionId jd \<mapsto>
                     job\<lparr>status := Completed, startedAt := Some (clock s),
                         completedAt := Some (clock s + 8500), progress := 100,
                         result := Some sample_result\<rparr>))"
  by (auto simp: processDocument_def processDocument_try_def Let_def split: option.splits)

lemma cancel_jobs:
  "jobs (snd (cancelIngestion http i s)) =
     (case jobs s i of
        None \<Rightarrow> jobs s
      | Some job \<Rightarrow>
          if is_terminal (status job) then jobs s
          else (jobs s)(i \<mapsto> job\<lparr>status := Failed, error := Some ''Cancelled by user'',
                                 completedAt := Some (clock s)\<rparr>))"
  by (simp add: cancelIngestion_def is_terminal_def Let_def split: option.splits)

lemma cancel_ok:
  "fst (cancelIngestion http i s) =
     Inr \<lparr>cancelled = (case jobs s i of None \<Rightarrow> False | Some job \<Rightarrow> \<not> is_terminal (status job))\<rparr>"
  by (simp add: cancelIngestion_def is_terminal_def Let_def split: option.splits)

lemma trigger_ok:
  "fst (triggerIngestion http d i c s) = Inr \<lparr>jobId = i, reply_status = ''queued''\<rparr>"
  by (simp add: triggerIngestion_def addJob_def andThen_def Let_def)

lemma dp_indep:
  "fst (dp_processDocument impl http job s) = fst (dp_processDocument impl http' job s) \<and>
   progress_log (snd (dp_processDocument impl http job s))
     = progress_log (snd (dp_processDocument impl http' job s))"
  by (simp add: dp_processDocument_def Let_def dp_catch_eq split: prod.splits sum.splits)

text \<open>
  C7.  A failed notification is not fatal.  When the post of the webhook throws, a
  timeout or a transport error, notifyMainAPI still returns normally and leaves the
  job store as it was; processDocument, cancelIngestion and triggerIngestion return the
  same value and leave the same store, every field of every job included, as they do
  when all notifications are delivered.  The same holds for sendProcessingCallback and
  the result and progress of the document processor.
\<close>

theorem notification_failure_nonfatal:
  "(http (length (outbox s)) payload = Some msg \<longrightarrow> fst (axios_post http payload s) = Inl msg) \<and>
   fst (notifyMainAPI http i st p r e s) = Inr () \<and>
   jobs (snd (notifyMainAPI http i st p r e s)) = jobs s \<and>
   fst (processDocument http jd s) = Inr () \<and>
   jobs (snd (processDocument http jd s)) = jobs (snd (processDocument http_ok jd s)) \<and>
   fst (cancelIngestion http i s) = fst (cancelIngestion http_ok i s) \<and>
   jobs (snd (cancelIngestion http i s)) = jobs (snd (cancelIngestion http_ok i s)) \<and>
   fst (triggerIngestion http d i c s) = fst (triggerIngestion http_ok d i c s) \<and>
   jobs (snd (triggerIngestion http d i c s)) = jobs (snd (triggerIngestion http_ok d i c s)) \<and>
   (chttp (length (callbacks ps)) (docId, res) = Some msg \<longrightarrow>
      fst (http_post chttp (docId, res) ps) = Inl msg) \<and>
   fst (sendProcessingCallback chttp docId res ps) = Inr () \<and>
   fst (dp_processDocument impl chttp job ps) = fst (dp_processDocument impl callback_ok_http job ps) \<and>
   progress_log (snd (dp_processDocument impl chttp job ps))
     = progress_log (snd (dp_processDocument impl callback_ok_http job ps))"
  using dp_indep [of impl chttp job ps callback_ok_http]
  by (simp add: processDocument_ok processDocument_jobs cancel_jobs cancel_ok trigger_ok
        trigger_jobs axios_post_def http_post_def)

theorem notification_failure_nonfatal_witness:
  "http_down (length (outbox ex_queued)) payload0 = Some ''timeout of 5000ms exceeded'' \<and>
   fst (axios_post http_down payload0 ex_queued) = Inl ''timeout of 5000ms exceeded'' \<and>
   fst (notifyMainAPI http_down ''ing-1'' ''processing'' 10 None None ex_queued) = Inr () \<and>
   jobs (snd (processDocument http_down jd1 ex_queued)) = jobs ex_done \<and>
   callback_down_http (length (callbacks proc_init)) (''doc-1'', initial_result job0)
     = Some ''timeout of 10000ms exceeded'' \<and>
   fst (sendProcessingCallback callback_down_http ''doc-1'' (initial_result job0) proc_init) = Inr ()"
  using notification_failure_nonfatal [of http_down ex_queued payload0 "''timeout of 5000ms exceeded''"
          "''ing-1''" "''processing''" 10 None None jd1 "''doc-1''" None callback_down_http proc_init
          "''doc-1''" "initial_result job0" simulated job0]
  by (simp add: http_down_def callback_down_http_def ex_done_def)

section \<open>Stage failures and retries\<close>










declare run_entry.simps [simp del]

lemma run_entry_ack: "h s = (Inr r, s') \<Longrightarrow> run_entry a h s = (a, [], Ack, s')"
  by (subst run_entry.simps) simp

lemma run_entry_retry:
  "h s = (Inl e, s') \<Longrightarrow> a < maxAttempts \<Longrightarrow> run_entry (a + 1) h s' = (n, ds, d, s2) \<Longrightarrow>
   run_entry a h s = (n, backoff a # ds, d, s2)"
  by (subst run_entry.simps) simp

lemma run_entry_dead:
  "h s = (Inl e, s') \<Longrightarrow> \<not> a < maxAttempts \<Longrightarrow> run_entry a h s = (a, [], DeadLetter, s')"
  by (subst run_entry.simps) simp


lemma throwing_handler_dead_lettered:
  assumes "\<forall>st. \<exists>e st'. h st = (Inl e, st')"
  shows "\<exists>st'. run_entry 1 h st0 = (3, [backoff 1, backoff 2], DeadLetter, st')"
proof -
  from assms obtain e1 s1 where 1: "h st0 = (Inl e1, s1)" by blast
  from assms obtain e2 s2 where 2: "h s1 = (Inl e2, s2)" by blast
  from assms obtain e3 s3 where 3: "h s2 = (Inl e3, s3)" by blast
  have r3: "run_entry 3 h s2 = (3, [], DeadLetter, s3)"
    by (rule run_entry_dead [of h s2 e3 s3 3, OF 3]) (simp add: maxAttempts_def)
  have r2: "run_entry 2 h s1 = (3, [backoff 2], DeadLetter, s3)"
    by (rule run_entry_retry [of h s1 e2 s2 2, OF 2]) (simp_all add: maxAttempts_def r3)
  have r1: "run_entry 1 h st0 = (3, [backoff 1, backoff 2], DeadLetter, s3)"
  proof (rule run_entry_retry [of h st0 e1 s1 1, OF 1])
    show "1 < maxAttempts" by (simp add: maxAttempts_def)
    show "run_entry (1 + 1) h s1 = (3, [backoff 2], DeadLetter, s3)"
      unfolding one_add_one by (rule r2)
  qed
  then show ?thesis by blast
qed




section \<open>The queue worker of the ingestion service\<close>

lemma processDocument_clock:
  "clock (snd (processDocument http jd s)) =
     (case jobs s (q_ingestionId jd) of None \<Rightarrow> clock s | Some job \<Rightarrow> clock s + 8500)"
  by (simp add: processDocument_def processDocument_try_def Let_def split: option.splits)

lemma job_progress_frame [simp]:
  "jobs (snd (job_progress eng q p s)) = jobs s"
  "history (snd (job_progress eng q p s)) = history s"
  "outbox (snd (job_progress eng q p s)) = outbox s"
  "clock (snd (job_progress eng q p s)) = clock s"
  "logs (snd (job_progress eng q p s)) = logs s"
  by (simp_all add: job_progress_def split: option.splits)

lemma job_progress_fst:
  "fst (job_progress eng q p s) = (case eng (clock s) q p of None \<Rightarrow> Inr () | Some msg \<Rightarrow> Inl msg)"
  by (simp add: job_progress_def split: option.splits)

lemma job_progress_accept:
  "eng (clock s) q p = None \<Longrightarrow> andThen (job_progress eng q p s) f = f () (snd (job_progress eng q p s))"
  by (simp add: job_progress_def andThen_def)

lemma job_progress_reject:
  "eng (clock s) q p = Some msg \<Longrightarrow> andThen (job_progress eng q p s) f = (Inl msg, s)"
  by (simp add: job_progress_def andThen_def)

lemma handler_rejected_first:
  assumes "eng (clock s) (bj_id qjob) 0 = Some msg"
  shows "handleDocumentProcessing eng http qjob s
           = (Inl msg, add_log ERROR ''Job failed'' (add_log LOG ''Processing job'' s))"
  using assms by (simp add: handleDocumentProcessing_def Let_def job_progress_def andThen_def)

lemma handler_rejected_last:
  assumes "eng (clock s) (bj_id qjob) 0 = None"
    and "eng (clock (snd (processDocument http (bj_data qjob) s))) (bj_id qjob) 100 = Some msg"
  shows "fst (handleDocumentProcessing eng http qjob s) = Inl msg"
proof -
  let ?s0 = "add_log LOG ''Processing job'' s"
  let ?s1 = "snd (job_progress eng (bj_id qjob) 0 ?s0)"
  let ?s2 = "snd (processDocument http (bj_data qjob) ?s1)"
  have a: "eng (clock ?s0) (bj_id qjob) 0 = None" using assms(1) by simp
  have "clock ?s2 = clock (snd (processDocument http (bj_data qjob) s))"
    by (simp add: processDocument_clock split: option.splits)
  then have b: "eng (clock ?s2) (bj_id qjob) 100 = Some msg" using assms(2) by simp
  show ?thesis
    unfolding handleDocumentProcessing_def Let_def job_progress_accept [of eng ?s0 "bj_id qjob" 0, OF a]
      andThen_ok [OF processDocument_ok] job_progress_reject [of eng ?s2 "bj_id qjob" 100 msg, OF b]
    by simp
qed

lemma handler_accepted:
  assumes "eng (clock s) (bj_id qjob) 0 = None"
    and "eng (clock (snd (processDocument http (bj_data qjob) s))) (bj_id qjob) 100 = None"
  shows "fst (handleDocumentProcessing eng http qjob s) = Inr processed_reply"
proof -
  let ?s0 = "add_log LOG ''Processing job'' s"
  let ?s1 = "snd (job_progress eng (bj_id qjob) 0 ?s0)"
  let ?s2 = "snd (processDocument http (bj_data qjob) ?s1)"
  have a: "eng (clock ?s0) (bj_id qjob) 0 = None" using assms(1) by simp
  have "clock ?s2 = clock (snd (processDocument http (bj_data qjob) s))"
    by (simp add: processDocument_clock split: option.splits)
  then have b: "eng (clock ?s2) (bj_id qjob) 100 = None" using assms(2) by simp
  show ?thesis
    unfolding handleDocumentProcessing_def Let_def job_progress_accept [of eng ?s0 "bj_id qjob" 0, OF a]
      andThen_ok [OF processDocument_ok] job_progress_accept [of eng ?s2 "bj_id qjob" 100, OF b]
    by (simp add: processed_reply_def)
qed

lemma handler_outcome:
  "fst (handleDocumentProcessing eng http qjob s) =
     (case eng (clock s) (bj_id qjob) 0 of
        Some msg \<Rightarrow> Inl msg
      | None \<Rightarrow>
          (case eng (clock (snd (processDocument http (bj_data qjob) s))) (bj_id qjob) 100 of
             Some msg \<Rightarrow> Inl msg
           | None \<Rightarrow> Inr processed_reply))"
  using handler_rejected_first [of eng s qjob _ http] handler_rejected_last [of eng s qjob http]
    handler_accepted [of eng s qjob http]
  by (auto split: option.splits)

lemma handler_unknown_frame:
  assumes "jobs s (q_ingestionId (bj_data qjob)) = None"
  shows "jobs (snd (handleDocumentProcessing eng http qjob s)) = jobs s \<and>
         history (snd (handleDocumentProcessing eng http qjob s)) = history s \<and>
         outbox (snd (handleDocumentProcessing eng http qjob s)) = outbox s"
proof (cases "eng (clock s) (bj_id qjob) 0")
  case (Some msg)
  then show ?thesis by (simp add: handler_rejected_first)
next
  case None
  let ?s0 = "add_log LOG ''Processing job'' s"
  let ?s1 = "snd (job_progress eng (bj_id qjob) 0 ?s0)"
  let ?s2 = "snd (processDocument http (bj_data qjob) ?s1)"
  have a: "eng (clock ?s0) (bj_id qjob) 0 = None" using None by simp
  have u: "jobs ?s1 (q_ingestionId (bj_data qjob)) = None" using assms by simp
  have p: "processDocument http (bj_data qjob) ?s1
             = (Inr (), add_log ERROR (''Job not found: '' @ q_ingestionId (bj_data qjob)) ?s1)"
    by (rule processDocument_unknown [OF u])
  have f: "jobs ?s2 = jobs s \<and> history ?s2 = history s \<and> outbox ?s2 = outbox s"
    unfolding p by simp
  show ?thesis
  proof (cases "eng (clock ?s2) (bj_id qjob) 100")
    case None
    show ?thesis
      unfolding handleDocumentProcessing_def Let_def job_progress_accept [of eng ?s0 "bj_id qjob" 0, OF a]
        andThen_ok [OF processDocument_ok] job_progress_accept [of eng ?s2 "bj_id qjob" 100, OF None]
      using f by simp
  next
    case (Some msg)
    show ?thesis
      unfolding handleDocumentProcessing_def Let_def job_progress_accept [of eng ?s0 "bj_id qjob" 0, OF a]
        andThen_ok [OF processDocument_ok] job_progress_reject [of eng ?s2 "bj_id qjob" 100 msg, OF Some]
      using f by simp
  qed
qed

lemma run_entry_bounds:
  "a \<le> maxAttempts \<Longrightarrow> run_entry a h s = (n, ds, d, s') \<Longrightarrow>
   a \<le> n \<and> n \<le> maxAttempts \<and> length ds = n - a \<and> (d = DeadLetter \<longrightarrow> n = maxAttempts)"
proof (induction "maxAttempts - a" arbitrary: a s n ds d s')
  case 0
  then have top: "\<not> a < maxAttempts" by simp
  obtain out s1 where hs: "h s = (out, s1)" by (cases "h s")
  show ?case
  proof (cases out)
    case (Inl e)
    with hs have "h s = (Inl e, s1)" by simp
    from run_entry_dead [of h s e s1 a, OF this top] "0.prems" top show ?thesis by auto
  next
    case (Inr r)
    with hs have "h s = (Inr r, s1)" by simp
    from run_entry_ack [of h s r s1 a, OF this] "0.prems" show ?thesis by auto
  qed
next
  case (Suc k)
  then have lt: "a < maxAttempts" by simp
  obtain out s1 where hs: "h s = (out, s1)" by (cases "h s")
  show ?case
  proof (cases out)
    case (Inr r)
    with hs have "h s = (Inr r, s1)" by simp
    from run_entry_ack [of h s r s1 a, OF this] Suc.prems show ?thesis by auto
  next
    case (Inl e)
    with hs have thrown: "h s = (Inl e, s1)" by simp
    obtain n' ds' d' s2 where next_run: "run_entry (a + 1) h s1 = (n', ds', d', s2)"
      by (cases "run_entry (a + 1) h s1") auto
    have k: "k = maxAttempts - (a + 1)" using Suc.hyps(2) by simp
    have le: "a + 1 \<le> maxAttempts" using lt by simp
    from Suc.hyps(1) [OF k le next_run]
    have ih: "a + 1 \<le> n' \<and> n' \<le> maxAttempts \<and> length ds' = n' - (a + 1) \<and>
              (d' = DeadLetter \<longrightarrow> n' = maxAttempts)" .
    from run_entry_retry [of h s e s1 a n' ds' d' s2, OF thrown lt next_run] Suc.prems(2)
    have "n = n'" "ds = backoff a # ds'" "d = d'" by simp_all
    with ih show ?thesis by auto
  qed
qed

lemma ghost_unknown: "jobs init_state (q_ingestionId (bj_data ghost_item)) = None"
  by (simp add: init_state_def)

text \<open>
  C8 (as amended).  Every queue item handed to the worker ends in an ack, a retry or a
  dead-letter.  The handler returns its success reply unless a call of \<open>job.progress\<close>
  rejects, and then it throws that error again; under the queue's policy the entry is
  acknowledged at some attempt up to \<open>maxAttempts\<close>, each attempt before it having been
  retried, or dead-lettered at attempt \<open>maxAttempts\<close>.  A silent return exists: for an
  item whose ingestion id is absent from the job store, processDocument writes an error
  line to the log and returns, and the item leaves no job record, no write to the store
  and no webhook.
\<close>

theorem delivered_item_settled:
  "fst (handleDocumentProcessing eng http qjob s) =
     (case eng (clock s) (bj_id qjob) 0 of
        Some msg \<Rightarrow> Inl msg
      | None \<Rightarrow>
          (case eng (clock (snd (processDocument http (bj_data qjob) s))) (bj_id qjob) 100 of
             Some msg \<Rightarrow> Inl msg
           | None \<Rightarrow> Inr processed_reply)) \<and>
   (\<exists>n delays d s'.
      run_entry 1 (handleDocumentProcessing eng http qjob) s = (n, delays, d, s') \<and>
      1 \<le> n \<and> n \<le> maxAttempts \<and> length delays = n - 1 \<and>
      (d = DeadLetter \<longrightarrow> n = maxAttempts)) \<and>
   (jobs s (q_ingestionId (bj_data qjob)) = None \<longrightarrow>
      jobs (snd (handleDocumentProcessing eng http qjob s)) = jobs s \<and>
      history (snd (handleDocumentProcessing eng http qjob s)) = history s \<and>
      outbox (snd (handleDocumentProcessing eng http qjob s)) = outbox s \<and>
      logs (snd (processDocument http (bj_data qjob) s))
        = logs s @ [(ERROR, ''Job not found: '' @ q_ingestionId (bj_data qjob))])"
proof -
  obtain n delays d s' where
    run: "run_entry 1 (handleDocumentProcessing eng http qjob) s = (n, delays, d, s')"
    by (cases "run_entry 1 (handleDocumentProcessing eng http qjob) s") auto
  have "1 \<le> maxAttempts" by (simp add: maxAttempts_def)
  from run_entry_bounds [OF this run] run
  have B: "\<exists>n delays d s'.
      run_entry 1 (handleDocumentProcessing eng http qjob) s = (n, delays, d, s') \<and>
      1 \<le> n \<and> n \<le> maxAttempts \<and> length delays = n - 1 \<and>
      (d = DeadLetter \<longrightarrow> n = maxAttempts)"
    by blast
  have C: "jobs s (q_ingestionId (bj_data qjob)) = None \<longrightarrow>
      jobs (snd (handleDocumentProcessing eng http qjob s)) = jobs s \<and>
      history (snd (handleDocumentProcessing eng http qjob s)) = history s \<and>
      outbox (snd (handleDocumentProcessing eng http qjob s)) = outbox s \<and>
      logs (snd (processDocument http (bj_data qjob) s))
        = logs s @ [(ERROR, ''Job not found: '' @ q_ingestionId (bj_data qjob))]"
    using handler_unknown_frame [of s qjob eng http]
    by (simp add: processDocument_unknown add_log_def)
  from handler_outcome [of eng http qjob s] B C show ?thesis by blast
qed


theorem delivered_item_settled_witness:
  "jobs init_state (q_ingestionId (bj_data ghost_item)) = None \<and>
   fst (handleDocumentProcessing engine_ok http_ok ghost_item init_state) = Inr processed_reply \<and>
   jobs (snd (handleDocumentProcessing engine_ok http_ok ghost_item init_state)) = jobs init_state \<and>
   outbox (snd (handleDocumentProcessing engine_ok http_ok ghost_item init_state))
     = outbox init_state \<and>
   fst (handleDocumentProcessing engine_down http_ok ghost_item init_state)
     = Inl ''Connection is closed.'' \<and>
   (\<exists>delays s'. run_entry 1 (handleDocumentProcessing engine_down http_ok ghost_item) init_state
      = (maxAttempts, delays, DeadLetter, s'))"
proof -
  have thrown: "\<forall>st. \<exists>e st'. handleDocumentProcessing engine_down http_ok ghost_item st = (Inl e, st')"
    using handler_rejected_first [of engine_down _ ghost_item "''Connection is closed.''" http_ok]
    by (simp add: engine_down_def)
  from throwing_handler_dead_lettered [OF thrown, of init_state]
  have dead: "\<exists>delays s'.
      run_entry 1 (handleDocumentProcessing engine_down http_ok ghost_item) init_state
      = (maxAttempts, delays, DeadLetter, s')"
    unfolding maxAttempts_def by blast
  from delivered_item_settled [of engine_ok http_ok ghost_item init_state]
    delivered_item_settled [of engine_down http_ok ghost_item init_state] ghost_unknown dead
  show ?thesis
    by (simp add: engine_ok_def engine_down_def)
qed

text \<open>
  The claim as stated fails in its last part: the item \<open>ghost\<close>, whose id the store
  does not know, is returned from silently and acknowledged as processed, and
  afterwards there is no job record for it, no write to the store and no webhook.
\<close>

theorem silent_return_counterexample:
  "fst (handleDocumentProcessing engine_ok http_ok ghost_item init_state) = Inr processed_reply \<and>
   fst (snd (snd (run_entry 1 (handleDocumentProcessing engine_ok http_ok ghost_item) init_state)))
     = Ack \<and>
   jobs (snd (handleDocumentProcessing engine_ok http_ok ghost_item init_state)) ''ghost'' = None \<and>
   outbox (snd (handleDocumentProcessing engine_ok http_ok ghost_item init_state)) = [] \<and>
   history (snd (handleDocumentProcessing engine_ok http_ok ghost_item init_state)) = []"
proof -
  have r: "fst (handleDocumentProcessing engine_ok http_ok ghost_item init_state)
             = Inr processed_reply"
    by (simp add: handler_outcome engine_ok_def)
  then have c: "handleDocumentProcessing engine_ok http_ok ghost_item init_state
      = (Inr processed_reply, snd (handleDocumentProcessing engine_ok http_ok ghost_item init_state))"
    by (metis prod.collapse)
  have a: "run_entry 1 (handleDocumentProcessing engine_ok http_ok ghost_item) init_state
      = (1, [], Ack, snd (handleDocumentProcessing engine_ok http_ok ghost_item init_state))"
    by (rule run_entry_ack [of "handleDocumentProcessing engine_ok http_ok ghost_item" init_state
          processed_reply _ 1, OF c])
  have f: "jobs (snd (handleDocumentProcessing engine_ok http_ok ghost_item init_state)) = jobs init_state \<and>
         history (snd (handleDocumentProcessing engine_ok http_ok ghost_item init_state)) = history init_state \<and>
         outbox (snd (handleDocumentProcessing engine_ok http_ok ghost_item init_state)) = outbox init_state"
    by (rule handler_unknown_frame [OF ghost_unknown])
  show ?thesis unfolding a using r f by (simp add: init_state_def)
qed

section \<open>Keyword extraction\<close>

lemma set_order_set: "set (set_order seen ws) = set ws - set seen"
  by (induction ws arbitrary: seen) auto

lemma set_order_distinct: "distinct (set_order seen ws)"
  by (induction ws arbitrary: seen) (auto simp: set_order_set)

lemma split_aux_no_space:
  "\<forall>c\<in>set cur. \<not> is_space c \<Longrightarrow> w \<in> set (split_aux b cur s) \<Longrightarrow> c \<in> set w \<Longrightarrow> \<not> is_space c"
proof (induction s arbitrary: b cur)
  case Nil
  then show ?case by auto
next
  case (Cons a s)
  show ?case
  proof (cases "is_space a")
    case True
    with Cons.prems(2) have "w = cur \<or> w \<in> set (split_aux True [] s)"
      by (auto split: if_splits)
    then show ?thesis
      using Cons.IH [of "[]" True] Cons.prems by auto
  next
    case False
    with Cons.prems(2) have "w \<in> set (split_aux False (cur @ [a]) s)" by simp
    then show ?thesis
      using Cons.IH [of "cur @ [a]" False] Cons.prems False by auto
  qed
qed

lemma split_ws_no_space: "w \<in> set (split_ws s) \<Longrightarrow> c \<in> set w \<Longrightarrow> \<not> is_space c"
  using split_aux_no_space [of "[]" w False s c] by (simp add: split_ws_def)

lemma split_aux_chars:
  "w \<in> set (split_aux b cur s) \<Longrightarrow> set w \<subseteq> set cur \<union> set s"
proof (induction s arbitrary: b cur)
  case Nil
  then show ?case by auto
next
  case (Cons a s)
  show ?case
  proof (cases "is_space a")
    case True
    with Cons.prems have "w = cur \<or> w \<in> set (split_aux True [] s)"
      by (auto split: if_splits)
    then show ?thesis
      using Cons.IH [of True "[]"] by auto
  next
    case False
    with Cons.prems have "w \<in> set (split_aux False (cur @ [a]) s)" by simp
    then show ?thesis
      using Cons.IH [of False "cur @ [a]"] by auto
  qed
qed

lemma split_ws_chars: "w \<in> set (split_ws s) \<Longrightarrow> set w \<subseteq> set s"
  using split_aux_chars [of w False "[]" s] by (simp add: split_ws_def)

lemma lower_char_idem: "lower_char (lower_char c) = lower_char c"
proof (cases c)
  case (Char b0 b1 b2 b3 b4 b5 b6 b7)
  show ?thesis
    unfolding Char
    by (cases b0; cases b1; cases b2; cases b3; cases b4; cases b5; cases b6; cases b7;
        simp add: lower_char_def)
qed

lemma keywords_of_text:
  "t \<noteq> [] \<Longrightarrow>
   extractKeywords job (Some t) =
     (if filter (\<lambda>w. length w > 3) (set_order [] (split_ws (toLowerCase t))) = []
      then [''document'', ''content'', ''text'']
      else take 10 (filter (\<lambda>w. length w > 3) (set_order [] (split_ws (toLowerCase t)))))"
  by (simp add: extractKeywords_def Let_def)

text \<open>
  C10 (as amended).  For an undefined text and for the empty string, extractKeywords
  returns \<open>document\<close>, \<open>file\<close> and the job's file type.  For every other text it
  returns at most 10 keywords, all different; if the lower-cased text has a
  white-space-delimited token longer than 3, each keyword is such a token (it has no
  white space and no upper-case letter), and if it has none the result is the fixed
  list \<open>document\<close>, \<open>content\<close>, \<open>text\<close>.
\<close>

theorem extractKeywords_tokens:
  "extractKeywords job None = [''document'', ''file'', fileType job] \<and>
   extractKeywords job (Some []) = [''document'', ''file'', fileType job] \<and>
   (t \<noteq> [] \<longrightarrow>
      length (extractKeywords job (Some t)) \<le> 10 \<and>
      distinct (extractKeywords job (Some t)) \<and>
      (if \<exists>w\<in>set (split_ws (toLowerCase t)). length w > 3
       then \<forall>k\<in>set (extractKeywords job (Some t)).
              k \<in> set (split_ws (toLowerCase t)) \<and> length k > 3 \<and>
              (\<forall>c\<in>set k. \<not> is_space c \<and> lower_char c = c)
       else extractKeywords job (Some t) = [''document'', ''content'', ''text'']))"
proof -
  let ?ws = "split_ws (toLowerCase t)"
  let ?f = "filter (\<lambda>w. length w > 3) (set_order [] ?ws)"
  have first: "extractKeywords job None = [''document'', ''file'', fileType job]"
    and second: "extractKeywords job (Some []) = [''document'', ''file'', fileType job]"
    by (simp_all add: extractKeywords_def)
  have setf: "set ?f = {w \<in> set ?ws. length w > 3}"
    by (auto simp: set_order_set)
  have empty_iff: "(?f = []) = (\<not> (\<exists>w\<in>set ?ws. length w > 3))"
  proof -
    have "(?f = []) = (set ?f = {})" by (simp only: set_empty)
    also have "\<dots> = (\<not> (\<exists>w\<in>set ?ws. length w > 3))" unfolding setf by blast
    finally show ?thesis .
  qed
  have low: "\<And>k c. k \<in> set ?ws \<Longrightarrow> c \<in> set k \<Longrightarrow> lower_char c = c"
  proof -
    fix k c assume "k \<in> set ?ws" "c \<in> set k"
    then have "c \<in> set (toLowerCase t)" using split_ws_chars by blast
    then show "lower_char c = c" by (auto simp: toLowerCase_def lower_char_idem)
  qed
  have third: "t \<noteq> [] \<longrightarrow>
      length (extractKeywords job (Some t)) \<le> 10 \<and>
      distinct (extractKeywords job (Some t)) \<and>
      (if \<exists>w\<in>set ?ws. length w > 3
       then \<forall>k\<in>set (extractKeywords job (Some t)).
              k \<in> set ?ws \<and> length k > 3 \<and> (\<forall>c\<in>set k. \<not> is_space c \<and> lower_char c = c)
       else extractKeywords job (Some t) = [''document'', ''content'', ''text''])"
  proof
    assume ne: "t \<noteq> []"
    show "length (extractKeywords job (Some t)) \<le> 10 \<and>
      distinct (extractKeywords job (Some t)) \<and>
      (if \<exists>w\<in>set ?ws. length w > 3
       then \<forall>k\<in>set (extractKeywords job (Some t)).
              k \<in> set ?ws \<and> length k > 3 \<and> (\<forall>c\<in>set k. \<not> is_space c \<and> lower_char c = c)
       else extractKeywords job (Some t) = [''document'', ''content'', ''text''])"
    proof (cases "\<exists>w\<in>set ?ws. length w > 3")
      case False
      with empty_iff have "?f = []" by simp
      with ne False show ?thesis by (simp add: keywords_of_text)
    next
      case True
      with empty_iff have nonempty: "?f \<noteq> []" by simp
      have eq: "extractKeywords job (Some t) = take 10 ?f"
        using ne nonempty by (simp add: keywords_of_text)
      have sub: "set (take 10 ?f) \<subseteq> {w \<in> set ?ws. length w > 3}"
        using setf set_take_subset by fastforce
      have dist: "distinct (take 10 ?f)"
        by (simp add: set_order_distinct)
      show ?thesis
        using True sub dist low split_ws_no_space unfolding eq by auto
    qed
  qed
  from first second third show ?thesis by blast
qed

theorem extractKeywords_tokens_witness:
  "''Quarterly REPORT  on the quarterly sales'' \<noteq> [] \<and>
   (\<exists>w\<in>set (split_ws (toLowerCase ''Quarterly REPORT  on the quarterly sales'')). length w > 3) \<and>
   extractKeywords job0 (Some ''Quarterly REPORT  on the quarterly sales'')
     = [''quarterly'', ''report'', ''sales''] \<and>
   length (extractKeywords job0 (Some ''Quarterly REPORT  on the quarterly sales'')) \<le> 10 \<and>
   extractKeywords job0 (Some ''a of to'') = [''document'', ''content'', ''text'']"
  using extractKeywords_tokens [of job0 "''Quarterly REPORT  on the quarterly sales''"]
  by (simp add: extractKeywords_def Let_def split_ws_def toLowerCase_def lower_char_def is_space_def)

text \<open>
  The claim as stated fails at the empty string, a defined text without any token
  longer than 3: the result is \<open>document\<close>, \<open>file\<close>, \<open>pdf\<close> and not the fixed
  list \<open>document\<close>, \<open>content\<close>, \<open>text\<close>.
\<close>

theorem empty_text_counterexample:
  "extractKeywords job0 (Some []) = [''document'', ''file'', ''pdf''] \<and>
   extractKeywords job0 (Some []) \<noteq> [''document'', ''content'', ''text'']"
  by (simp add: extractKeywords_def job0_def)

end
